theory Spec2Isabelle
  imports Main "HOL-Library.AList" "HOL-Library.Sublist"
begin

section \<open>JavaScript values\<close>

text \<open>
  Regular expression literals of the sources, as syntax trees. Only the operators that
  occur in \<^verbatim>\<open>src/webpack.js\<close> are present: a literal character (an escaped
  \<^verbatim>\<open>\.\<close> is the character itself), concatenation, alternation \<^verbatim>\<open>|\<close>, the
  optional \<^verbatim>\<open>?\<close>, and the end-of-input assertion \<^verbatim>\<open>$\<close> (no \<^verbatim>\<open>m\<close> flag).
\<close>

datatype regex =
    Chr char
  | Seq regex regex
  | Alt regex regex
  | Opt regex
  | Eps
  | EndOfInput

text \<open>
  The values that flow through \<^verbatim>\<open>createWebpack\<close>: JSON-like data, \<^verbatim>\<open>undefined\<close>,
  regular expressions, functions and instances of classes. An object is the list of its
  own enumerable properties in insertion order; a read takes the first entry of a key.
  An instance of a class is an object that also has a prototype: it is the name of its
  class with its own enumerable properties, and what it inherits (the \<^verbatim>\<open>apply\<close> method
  of a plugin, say) goes with the name. A function is opaque and has a name only.
  Numbers are integers. A read of an inherited property and of the index and
  \<^verbatim>\<open>length\<close> properties of a string is outside the model: a property that is not an
  own property of an object or an instance reads as \<^verbatim>\<open>undefined\<close>.
\<close>

datatype jsval =
    JUndefined
  | JNull
  | JBool bool
  | JNum int
  | JStr string
  | JRegExp regex
  | JFunction string
  | JArr "jsval list"
  | JObj "(string \<times> jsval) list"
  | JInstance string "(string \<times> jsval) list"

text \<open>
  What is thrown: a \<^verbatim>\<open>TypeError\<close>, the error of \<^verbatim>\<open>fs.realpathSync\<close> with its code,
  and the \<^verbatim>\<open>RangeError\<close> of a call stack that is full (only the model on a store,
  further down, has calls that deep).
\<close>

datatype error = TypeError | RangeError | FsError string

fun truthy :: "jsval \<Rightarrow> bool" where
  "truthy JUndefined = False"
| "truthy JNull = False"
| "truthy (JBool b) = b"
| "truthy (JNum n) = (n \<noteq> 0)"
| "truthy (JStr s) = (s \<noteq> [])"
| "truthy (JRegExp r) = True"
| "truthy (JFunction f) = True"
| "truthy (JArr xs) = True"
| "truthy (JObj kvs) = True"
| "truthy (JInstance c kvs) = True"

fun isArray :: "jsval \<Rightarrow> bool" where
  "isArray (JArr xs) = True"
| "isArray v = False"

fun elems :: "jsval \<Rightarrow> jsval list" where
  "elems (JArr xs) = xs"
| "elems v = []"

fun Object_keys :: "jsval \<Rightarrow> string list" where
  "Object_keys (JObj kvs) = remdups (map fst kvs)"
| "Object_keys (JInstance c kvs) = remdups (map fst kvs)"
| "Object_keys v = []"

text \<open>\<^verbatim>\<open>v[key]\<close> and \<^verbatim>\<open>v[key] = x\<close>.\<close>

fun get :: "jsval \<Rightarrow> string \<Rightarrow> jsval" where
  "get (JObj kvs) key = (case map_of kvs key of Some v \<Rightarrow> v | None \<Rightarrow> JUndefined)"
| "get (JInstance c kvs) key = (case map_of kvs key of Some v \<Rightarrow> v | None \<Rightarrow> JUndefined)"
| "get v key = JUndefined"

fun put :: "jsval \<Rightarrow> string \<Rightarrow> jsval \<Rightarrow> jsval" where
  "put (JObj kvs) key x = JObj (AList.update key x kvs)"
| "put (JInstance c kvs) key x = JInstance c (AList.update key x kvs)"
| "put v key x = v"

text \<open>
  A read through \<^verbatim>\<open>null\<close> or \<^verbatim>\<open>undefined\<close> throws; \<^verbatim>\<open>...v\<close> in an array
  literal iterates an array or the characters of a string and throws on anything else;
  \<^verbatim>\<open>v.push(x)\<close> appends to an array and throws where \<^verbatim>\<open>v.push\<close> is not a function.
  Where an object has an own property \<^verbatim>\<open>push\<close> that is a function, the code calls it;
  what a function of the caller does is outside this model, and the call throws here as
  well (the model on a store, further down, has the call).
\<close>

definition getE :: "jsval \<Rightarrow> string \<Rightarrow> error + jsval" where
  "getE v key = (if v = JNull \<or> v = JUndefined then Inl TypeError else Inr (get v key))"

fun spread :: "jsval \<Rightarrow> error + jsval list" where
  "spread (JArr xs) = Inr xs"
| "spread (JStr s) = Inr (map (\<lambda>c. JStr [c]) s)"
| "spread v = Inl TypeError"

fun push :: "jsval \<Rightarrow> jsval \<Rightarrow> error + jsval" where
  "push (JArr xs) x = Inr (JArr (xs @ [x]))"
| "push v x = Inl TypeError"

section \<open>The merge of the defaults with the overrides\<close>

text \<open>
  Modelled from the spec: the package \<^verbatim>\<open>deepmerge\<close>, which \<^verbatim>\<open>src/webpack.js\<close>
  requires as \<^verbatim>\<open>merge\<close> and whose code is not among the sources. The spec's merge rule
  is: deep, the override wins on a conflict of scalar or object fields, and arrays are
  concatenated, default first, never deduplicated. The four functions below have the shape
  of the package's algorithm with its default options: a value that is an array or an
  object is copied, never shared; a regular expression and a function are not merged but
  taken as they are. To the package an instance of a class is an object like any other:
  its own enumerable properties are copied into a new plain object (\<^verbatim>\<open>destination = {}\<close>),
  which has no class.
\<close>

fun isMergeableObject :: "jsval \<Rightarrow> bool" where
  "isMergeableObject (JArr xs) = True"
| "isMergeableObject (JObj kvs) = True"
| "isMergeableObject (JInstance c kvs) = True"
| "isMergeableObject v = False"

definition emptyTarget :: "jsval \<Rightarrow> jsval" where
  "emptyTarget val = (if isArray val then JArr [] else JObj [])"

lemma size_elem: "x \<in> set xs \<Longrightarrow> Suc (size x) < size (JArr xs)"
  by (induction xs) auto

lemma size_entry: "(k, v) \<in> set kvs \<Longrightarrow> Suc (size v) < size (JObj kvs)"
  by (induction kvs) auto

lemma size_own: "(k, v) \<in> set kvs \<Longrightarrow> Suc (size v) < size (JInstance c kvs)"
  by (induction kvs) auto

lemma size_get_le: "size (get v k) \<le> size v"
proof (cases v)
  case (JObj kvs)
  show ?thesis
  proof (cases "map_of kvs k")
    case None
    with JObj show ?thesis by simp
  next
    case (Some w)
    then have "(k, w) \<in> set kvs" by (rule map_of_SomeD)
    from size_entry[OF this] JObj Some show ?thesis by simp
  qed
next
  case (JInstance c kvs)
  show ?thesis
  proof (cases "map_of kvs k")
    case None
    with JInstance show ?thesis by simp
  next
    case (Some w)
    then have "(k, w) \<in> set kvs" by (rule map_of_SomeD)
    from size_own[OF this] JInstance Some show ?thesis by simp
  qed
qed simp_all

lemma size_get_key: "key \<in> set (Object_keys v) \<Longrightarrow> Suc (size (get v key)) < size v"
proof (cases v)
  case (JObj kvs)
  assume "key \<in> set (Object_keys v)"
  with JObj have "key \<in> fst ` set kvs" by simp
  then obtain w where w: "map_of kvs key = Some w"
    by (metis domIff dom_map_of_conv_image_fst not_Some_eq)
  then have "(key, w) \<in> set kvs" by (rule map_of_SomeD)
  from size_entry[OF this] JObj w show ?thesis by simp
next
  case (JInstance c kvs)
  assume "key \<in> set (Object_keys v)"
  with JInstance have "key \<in> fst ` set kvs" by simp
  then obtain w where w: "map_of kvs key = Some w"
    by (metis domIff dom_map_of_conv_image_fst not_Some_eq)
  then have "(key, w) \<in> set kvs" by (rule map_of_SomeD)
  from size_own[OF this] JInstance w show ?thesis by simp
qed simp_all

function cloneUnlessOtherwiseSpecified :: "jsval \<Rightarrow> jsval"
  and defaultArrayMerge :: "jsval \<Rightarrow> jsval \<Rightarrow> jsval"
  and mergeObject :: "jsval \<Rightarrow> jsval \<Rightarrow> jsval"
  and deepmerge :: "jsval \<Rightarrow> jsval \<Rightarrow> jsval"
where
  "cloneUnlessOtherwiseSpecified v =
     (if isMergeableObject v then deepmerge (emptyTarget v) v else v)"
| "defaultArrayMerge target source =
     JArr (map cloneUnlessOtherwiseSpecified (elems target @ elems source))"
| "mergeObject target source =
     (let destination =
            (if isMergeableObject target
             then fold (\<lambda>key d. AList.update key (cloneUnlessOtherwiseSpecified (get target key)) d)
                    (Object_keys target) []
             else [])
      in JObj (fold (\<lambda>key d.
                  if \<not> isMergeableObject (get source key) \<or> \<not> truthy (get target key)
                  then AList.update key (cloneUnlessOtherwiseSpecified (get source key)) d
                  else AList.update key (deepmerge (get target key) (get source key)) d)
                (Object_keys source) destination))"
| "deepmerge target source =
     (if isArray source \<noteq> isArray target then cloneUnlessOtherwiseSpecified source
      else if isArray source then defaultArrayMerge target source
      else mergeObject target source)"
  by pat_completeness auto
termination
proof (relation "measure (\<lambda>x. case x of
      Inl (Inl v) \<Rightarrow> 4 * (size v - 1) + 2
    | Inl (Inr (t, s)) \<Rightarrow> 4 * ((size t - 1) + (size s - 1))
    | Inr (Inl (t, s)) \<Rightarrow> 4 * ((size t - 1) + (size s - 1))
    | Inr (Inr (t, s)) \<Rightarrow> 4 * ((size t - 1) + (size s - 1))
                          + (if isArray s \<noteq> isArray t then 3 else 1))", goal_cases)
  case 1
  show ?case by simp
next
  case (2 v)
  then show ?case by (simp add: emptyTarget_def)
next
  case (3 target source x)
  then consider "x \<in> set (elems target)" | "x \<in> set (elems source)" by auto
  then show ?case
  proof cases
    case 1
    then obtain xs where "target = JArr xs" by (cases target) auto
    with 1 size_elem[of x xs] show ?thesis by simp
  next
    case 2
    then obtain xs where "source = JArr xs" by (cases source) auto
    with 2 size_elem[of x xs] show ?thesis by simp
  qed
next
  case (4 target source x)
  from size_get_key[OF 4(2)] show ?case by simp
next
  case (5 target source x xa)
  from size_get_key[OF 5(2)] show ?case by simp
next
  case (6 target source x xa)
  from size_get_key[OF 6(2)] size_get_le[of target xa]
  have "Suc (size (get source xa) - 1) \<le> size source - 1"
    and "size (get target xa) - 1 \<le> size target - 1"
    by arith+
  then show ?case by simp
next
  case (7 target source)
  then show ?case by simp
next
  case (8 target source)
  then show ?case by simp
next
  case (9 target source)
  then show ?case by simp
qed


text \<open>
  \<^verbatim>\<open>merge(target, source)\<close> as the module calls it. The package reads the keys of a
  source that is not an array with \<^verbatim>\<open>Object.keys\<close>, which throws on \<^verbatim>\<open>null\<close> and
  \<^verbatim>\<open>undefined\<close>; inside the recursion a source is always an array or an object.
\<close>

definition merge :: "jsval \<Rightarrow> jsval \<Rightarrow> error + jsval" where
  "merge target source =
     (if (source = JNull \<or> source = JUndefined) \<and> \<not> isArray target then Inl TypeError
      else Inr (deepmerge target source))"

section \<open>Regular expressions and paths\<close>

text \<open>
  \<open>rmatch r s\<close> lists what is left of \<open>s\<close> after each way of matching \<open>r\<close> at its
  start; \<^verbatim>\<open>r.test(s)\<close> looks for a match starting anywhere in \<open>s\<close>.
\<close>

fun rmatch :: "regex \<Rightarrow> string \<Rightarrow> string list" where
  "rmatch (Chr c) s = (case s of [] \<Rightarrow> [] | x # xs \<Rightarrow> if x = c then [xs] else [])"
| "rmatch (Seq a b) s = concat (map (rmatch b) (rmatch a s))"
| "rmatch (Alt a b) s = rmatch a s @ rmatch b s"
| "rmatch (Opt a) s = rmatch a s @ [s]"
| "rmatch Eps s = [s]"
| "rmatch EndOfInput s = (if s = [] then [[]] else [])"

definition regex_test :: "regex \<Rightarrow> string \<Rightarrow> bool" where
  "regex_test r s = list_ex (\<lambda>t. rmatch r t \<noteq> []) (suffixes s)"

fun Str :: "string \<Rightarrow> regex" where
  "Str [] = Eps"
| "Str (c # cs) = Seq (Chr c) (Str cs)"

text \<open>The regular expression literals of \<^verbatim>\<open>src/webpack.js\<close>, in the order of the file.\<close>

definition re_exclude :: regex where \<comment> \<open>\<^verbatim>\<open>/(node_modules|bower_components)/\<close>\<close>
  "re_exclude = Alt (Str ''node_modules'') (Str ''bower_components'')"

definition re_image :: regex where \<comment> \<open>\<^verbatim>\<open>/\.(png|jpe?g|gif|webp)$/\<close>\<close>
  "re_image = Seq (Chr CHR ''.'')
     (Seq (Alt (Str ''png'')
          (Alt (Seq (Str ''jp'') (Seq (Opt (Chr CHR ''e'')) (Chr CHR ''g'')))
          (Alt (Str ''gif'') (Str ''webp''))))
      EndOfInput)"

definition re_style :: regex where \<comment> \<open>\<^verbatim>\<open>/\.s?css$/\<close>\<close>
  "re_style = Seq (Chr CHR ''.'') (Seq (Opt (Chr CHR ''s'')) (Seq (Str ''css'') EndOfInput))"

definition re_script :: regex where \<comment> \<open>\<^verbatim>\<open>/\.js$/\<close>\<close>
  "re_script = Seq (Chr CHR ''.'') (Seq (Str ''js'') EndOfInput)"

definition re_font :: regex where \<comment> \<open>\<^verbatim>\<open>/\.(eot|svg|ttf|woff|woff2)$/\<close>\<close>
  "re_font = Seq (Chr CHR ''.'')
     (Seq (Alt (Str ''eot'') (Alt (Str ''svg'') (Alt (Str ''ttf'')
          (Alt (Str ''woff'') (Str ''woff2'')))))
      EndOfInput)"

definition re_typeface :: regex where \<comment> \<open>\<^verbatim>\<open>/typeface/\<close>\<close>
  "re_typeface = Str ''typeface''"

definition re_svg :: regex where \<comment> \<open>\<^verbatim>\<open>/\.svg$/\<close>\<close>
  "re_svg = Seq (Chr CHR ''.'') (Seq (Str ''svg'') EndOfInput)"

text \<open>
  \<^verbatim>\<open>path.resolve\<close> of Node on POSIX: the arguments are taken from the right until one
  is absolute, the working directory last; the joined path is cut at \<^verbatim>\<open>/\<close>, empty
  and \<^verbatim>\<open>.\<close> segments are dropped and \<^verbatim>\<open>..\<close> removes the segment before it.
  No file system is read: a symbolic link stays in the result.
\<close>

fun split_slash :: "string \<Rightarrow> string \<Rightarrow> string list" where
  "split_slash seg [] = [rev seg]"
| "split_slash seg (c # cs) =
     (if c = CHR ''/'' then rev seg # split_slash [] cs else split_slash (c # seg) cs)"

fun normalizeString :: "bool \<Rightarrow> string list \<Rightarrow> string list \<Rightarrow> string list" where
  "normalizeString allowAboveRoot res [] = rev res"
| "normalizeString allowAboveRoot res (seg # segs) =
     (if seg = [] \<or> seg = ''.'' then normalizeString allowAboveRoot res segs
      else if seg = ''..'' then
        (case res of
           [] \<Rightarrow> normalizeString allowAboveRoot (if allowAboveRoot then [''..''] else []) segs
         | r # rs \<Rightarrow>
             if r = ''..'' then normalizeString allowAboveRoot (''..'' # res) segs
             else normalizeString allowAboveRoot rs segs)
      else normalizeString allowAboveRoot (seg # res) segs)"

fun join_slash :: "string list \<Rightarrow> string" where
  "join_slash [] = []"
| "join_slash [seg] = seg"
| "join_slash (seg # segs) = seg @ ''/'' @ join_slash segs"

fun resolve_args :: "string list \<Rightarrow> string \<Rightarrow> string \<times> bool" where
  "resolve_args [] resolvedPath = (resolvedPath, False)"
| "resolve_args (p # ps) resolvedPath =
     (if p = [] then resolve_args ps resolvedPath
      else if hd p = CHR ''/'' then (p @ ''/'' @ resolvedPath, True)
      else resolve_args ps (p @ ''/'' @ resolvedPath))"

definition path_resolve :: "string \<Rightarrow> string list \<Rightarrow> string" where
  "path_resolve cwd args =
     (case resolve_args (rev args @ [cwd]) [] of
        (resolvedPath, resolvedAbsolute) \<Rightarrow>
          let n = join_slash (normalizeString (\<not> resolvedAbsolute) [] (split_slash [] resolvedPath))
          in if resolvedAbsolute then CHR ''/'' # n
             else if n \<noteq> [] then n else ''.'')"


section \<open>The module \<^verbatim>\<open>src/webpack.js\<close>\<close>

text \<open>
  What the module takes from outside itself: the environment variable, the working
  directory that \<^verbatim>\<open>path.resolve\<close> reads, the file system behind
  \<^verbatim>\<open>fs.realpathSync\<close> (it returns the canonical path or throws), \<^verbatim>\<open>require.resolve\<close>,
  and the plugin classes, each \<^verbatim>\<open>new\<close> taken as a function of its argument.
\<close>

record env =
  NODE_ENV :: "string option"
  cwd :: string
  cliRoot :: string
  realpathSync :: "string \<Rightarrow> error + string"
  require_resolve :: "string \<Rightarrow> string"
  HtmlWebpackPlugin :: "jsval \<Rightarrow> jsval"
  ExtractTextPlugin :: "jsval \<Rightarrow> jsval"
  ExtractTextPlugin_extract :: "jsval \<Rightarrow> jsval"
  CopyWebpackPlugin :: "jsval \<Rightarrow> jsval"

text \<open>
  \<^verbatim>\<open>!!(process.env.NODE_ENV || 'development').match(/^prod/)\<close>: an unset or empty
  variable counts as \<^verbatim>\<open>'development'\<close>, and \<^verbatim>\<open>/^prod/\<close> matches a string that
  starts with \<^verbatim>\<open>prod\<close>.
\<close>

definition production :: "env \<Rightarrow> bool" where
  "production e =
     prefix ''prod'' (case NODE_ENV e of None \<Rightarrow> ''development''
                      | Some v \<Rightarrow> if v = [] then ''development'' else v)"

text \<open>The first argument of \<^verbatim>\<open>merge\<close>, lines 45 to 73.\<close>

definition defaults :: "env \<Rightarrow> string \<Rightarrow> string \<Rightarrow> jsval" where
  "defaults e dir realDir = JObj
     [(''mode'', JStr ''development''),
      (''context'', JStr realDir),
      (''splitChunks'', JBool False),
      (''runtimeChunk'', JBool False),
      (''minimize'', JBool (production e)),
      (''sourceMap'', JBool (production e)),
      (''devtool'', JStr ''source-map''),
      (''exclude'', JRegExp re_exclude),
      (''outputPath'', JStr (path_resolve (cwd e) [dir, ''dist''])),
      (''html'', JObj [(''template'', JNull), (''title'', JStr ''OS.js'')]),
      (''entry'', JObj []),
      (''plugins'', JArr []),
      (''copy'', JArr []),
      (''rules'', JArr []),
      (''babel'', JObj
         [(''cacheDirectory'', JBool True),
          (''presets'', JArr [JStr (require_resolve e ''@babel/preset-env'')]),
          (''plugins'', JArr [JStr (require_resolve e ''@babel/plugin-transform-runtime'')])]),
      (''includePaths'', JArr [])]"

text \<open>The five rules that follow \<^verbatim>\<open>...options.rules\<close>, lines 113 to 178.\<close>

definition image_rule :: "env \<Rightarrow> jsval" where
  "image_rule e = JObj
     [(''test'', JRegExp re_image),
      (''use'', JArr [JObj [(''loader'', JStr (require_resolve e ''file-loader'')),
                            (''options'', JObj [])]])]"

definition style_rule :: "env \<Rightarrow> jsval \<Rightarrow> jsval list \<Rightarrow> jsval" where
  "style_rule e options includePaths = JObj
     [(''test'', JRegExp re_style),
      (''use'', ExtractTextPlugin_extract e (JObj
         [(''fallback'', JObj [(''loader'', JStr (require_resolve e ''style-loader''))]),
          (''use'', JArr
             [JObj [(''loader'', JStr (require_resolve e ''css-loader'')),
                    (''options'', JObj [(''minimize'', get options ''minimize''),
                                        (''sourceMap'', get options ''sourceMap'')])],
              JObj [(''loader'', JStr (require_resolve e ''sass-loader'')),
                    (''options'', JObj [(''minimize'', get options ''minimize''),
                                        (''sourceMap'', get options ''sourceMap''),
                                        (''includePaths'', JArr includePaths)])]])]))]"

definition script_rule :: "env \<Rightarrow> jsval \<Rightarrow> jsval" where
  "script_rule e options = JObj
     [(''test'', JRegExp re_script),
      (''exclude'', get options ''exclude''),
      (''use'', JObj [(''loader'', JStr (require_resolve e ''babel-loader'')),
                      (''options'', get options ''babel'')])]"

definition font_rule :: "env \<Rightarrow> jsval" where
  "font_rule e = JObj
     [(''test'', JRegExp re_font),
      (''include'', JRegExp re_typeface),
      (''use'', JObj [(''loader'', JStr (require_resolve e ''file-loader'')),
                      (''options'', JObj [(''name'', JStr ''fonts/[name].[ext]'')])])]"

definition svg_rule :: "env \<Rightarrow> jsval" where
  "svg_rule e = JObj
     [(''test'', JRegExp re_svg),
      (''exclude'', JRegExp re_typeface),
      (''use'', JObj [(''loader'', JStr (require_resolve e ''file-loader''))])]"

text \<open>The object that \<^verbatim>\<open>createWebpack\<close> returns, lines 83 to 181.\<close>

record optimization_config =
  minimize :: jsval
  splitChunks :: jsval
  runtimeChunk :: jsval

record output_config =
  path :: jsval
  sourceMapFilename :: jsval
  filename :: jsval

record resolve_config =
  modules :: "jsval list"

record module_config =
  rules :: "jsval list"

record webpack_config =
  mode :: jsval
  devtool :: jsval
  "context" :: jsval
  plugins :: "jsval list"
  entry :: jsval
  optimization :: optimization_config
  "output" :: output_config
  resolve :: resolve_config
  "module" :: module_config

text \<open>
  The value of \<^verbatim>\<open>options\<close> after line 73: the default of the parameter
  (\<^verbatim>\<open>options = {}\<close>, line 42, taken when the caller passes \<^verbatim>\<open>undefined\<close>) merged
  onto the defaults.
\<close>

definition mergedOptions :: "env \<Rightarrow> string \<Rightarrow> string \<Rightarrow> jsval \<Rightarrow> error + jsval" where
  "mergedOptions e dir realDir options =
     merge (defaults e dir realDir) (if options = JUndefined then JObj [] else options)"

text \<open>
  The \<^verbatim>\<open>return\<close> statement, lines 83 to 181, for the value that \<^verbatim>\<open>options\<close> has
  there. Each of the three spreads (lines 90, 112 and 142) can throw.
\<close>

definition returned :: "env \<Rightarrow> string \<Rightarrow> jsval \<Rightarrow> error + webpack_config" where
  "returned e dir options =
     (case spread (get options ''plugins'') of Inl err \<Rightarrow> Inl err | Inr options_plugins \<Rightarrow>
     (case spread (get options ''rules'') of Inl err \<Rightarrow> Inl err | Inr options_rules \<Rightarrow>
     (case spread (get options ''includePaths'') of Inl err \<Rightarrow> Inl err | Inr includePaths \<Rightarrow>
     Inr \<lparr>mode = get options ''mode'',
          devtool = get options ''devtool'',
          context = get options ''context'',
          plugins = [ExtractTextPlugin e (JStr ''[name].css''),
                     CopyWebpackPlugin e (get options ''copy'')] @ options_plugins,
          entry = get options ''entry'',
          optimization = \<lparr>minimize = get options ''minimize'',
                          splitChunks = get options ''splitChunks'',
                          runtimeChunk = get options ''runtimeChunk''\<rparr>,
          output = \<lparr>path = get options ''outputPath'',
                    sourceMapFilename = JStr ''[file].map'',
                    filename = JStr ''[name].js''\<rparr>,
          resolve = \<lparr>modules = [JStr ''node_modules'',
                                JStr (path_resolve (cwd e) [dir, ''node_modules'']),
                                JStr (path_resolve (cwd e) [cliRoot e, ''node_modules''])]\<rparr>,
          module = \<lparr>rules = options_rules @
                      [image_rule e, style_rule e options includePaths, script_rule e options,
                       font_rule e, svg_rule e]\<rparr>\<rparr>)))"

text \<open>
  \<^verbatim>\<open>createWebpack(dir, options = {})\<close>. Every throw of the body is a branch: the
  canonical path (line 43), the merge (line 45), the read of \<^verbatim>\<open>options.html.template\<close>
  and the push (lines 79 and 80), and the spreads of the returned literal. The assignment
  of line 76 and the push of line 80 change the merged object, which \<^verbatim>\<open>options\<close> names
  from line 45 on.
\<close>

definition createWebpack :: "env \<Rightarrow> string \<Rightarrow> jsval \<Rightarrow> error + webpack_config" where
  "createWebpack e dir options0 =
     (case realpathSync e dir of Inl err \<Rightarrow> Inl err | Inr realDir \<Rightarrow>
     (case mergedOptions e dir realDir options0 of Inl err \<Rightarrow> Inl err | Inr options \<Rightarrow>
     (let options = (if \<not> truthy (get options ''sourceMap'')
                     then put options ''devtool'' (JBool False) else options) in
     (case getE (get options ''html'') ''template'' of Inl err \<Rightarrow> Inl err | Inr template \<Rightarrow>
     (case (if truthy template
            then (case push (get options ''plugins'') (HtmlWebpackPlugin e template) of
                    Inl err \<Rightarrow> Inl err
                  | Inr arr \<Rightarrow> Inr (put options ''plugins'' arr))
            else Inr options) of Inl err \<Rightarrow> Inl err | Inr options \<Rightarrow>
      returned e dir options)))))"

text \<open>
  Modelled from the spec: how the bundling engine, which is not part of the repository,
  reads a rule. A rule applies to a file when its \<^verbatim>\<open>test\<close> and its \<^verbatim>\<open>include\<close>
  condition hold of the path and its \<^verbatim>\<open>exclude\<close> condition does not, an absent
  condition leaving the rule open; a condition that is a regular expression holds when
  the expression matches somewhere in the path. Conditions of other kinds are not modelled
  and hold of no path.
\<close>

fun condition_matches :: "jsval \<Rightarrow> string \<Rightarrow> bool" where
  "condition_matches (JRegExp r) p = regex_test r p"
| "condition_matches v p = False"

definition rule_matches :: "jsval \<Rightarrow> string \<Rightarrow> bool" where
  "rule_matches rule p =
     ((get rule ''test'' = JUndefined \<or> condition_matches (get rule ''test'') p) \<and>
      (get rule ''include'' = JUndefined \<or> condition_matches (get rule ''include'') p) \<and>
      (get rule ''exclude'' = JUndefined \<or> \<not> condition_matches (get rule ''exclude'') p))"

section \<open>The identifier filter of \<^verbatim>\<open>src/tasks/scaffold.js\<close>\<close>

text \<open>
  \<^verbatim>\<open>String(input).replace(/[^A-z0-9_]/g, '').trim()\<close>. The class keeps a character whose
  code lies in the range from \<^verbatim>\<open>A\<close> (65) to \<^verbatim>\<open>z\<close> (122), or from \<^verbatim>\<open>0\<close> (48) to
  \<^verbatim>\<open>9\<close> (57), or is \<^verbatim>\<open>_\<close> (95); every other character is replaced by nothing.
\<close>

definition in_class :: "char \<Rightarrow> bool" where
  "in_class c = (let n = (of_char c :: nat) in (65 \<le> n \<and> n \<le> 122) \<or> (48 \<le> n \<and> n \<le> 57) \<or> n = 95)"

definition is_space :: "char \<Rightarrow> bool" where
  "is_space c = (let n = (of_char c :: nat) in (9 \<le> n \<and> n \<le> 13) \<or> n = 32)"

definition trim :: "string \<Rightarrow> string" where
  "trim s = rev (dropWhile is_space (rev (dropWhile is_space s)))"

definition filterInput :: "string \<Rightarrow> string" where
  "filterInput input = trim (filter in_class input)"


section \<open>Notions used in the statements\<close>

text \<open>
  A value of plain data in which no object lists a key twice: no instance of a class
  occurs in it. These are the values that the merge copies to an equal value; the copy of
  an instance is a plain object, which differs from the instance.
\<close>

fun distinct_keys :: "jsval \<Rightarrow> bool" where
  "distinct_keys (JArr xs) = list_all distinct_keys xs"
| "distinct_keys (JObj kvs) = (distinct (map fst kvs) \<and> list_all (\<lambda>(k, v). distinct_keys v) kvs)"
| "distinct_keys (JInstance c kvs) = False"
| "distinct_keys v = True"

text \<open>
  The finitely many words a regular expression of the sources can match, each with a flag
  that says whether the match has to end where the input ends.
\<close>

fun words :: "regex \<Rightarrow> (string \<times> bool) list" where
  "words (Chr c) = [([c], False)]"
| "words (Seq a b) =
     concat (map (\<lambda>(u, ea). map (\<lambda>(v, eb). (u @ v, ea \<or> eb))
                                (filter (\<lambda>(v, eb). ea \<longrightarrow> v = []) (words b)))
                 (words a))"
| "words (Alt a b) = words a @ words b"
| "words (Opt a) = words a @ [([], False)]"
| "words Eps = [([], False)]"
| "words EndOfInput = [([], True)]"

text \<open>
  An environment to run the module in: the directory \<^verbatim>\<open>/proj\<close> is a symbolic link to
  \<^verbatim>\<open>/real/proj\<close> and nothing else exists; a plugin is an instance of its class that
  holds the argument of its constructor.
\<close>

definition example_env :: env where
  "example_env =
     \<lparr>NODE_ENV = None, cwd = ''/home/user'', cliRoot = ''/opt/cli'',
      realpathSync = (\<lambda>d. if d = ''/proj'' \<or> d = ''/real/proj'' then Inr ''/real/proj''
                          else Inl (FsError ''ENOENT'')),
      require_resolve = (\<lambda>m. ''/opt/cli/node_modules/'' @ m),
      HtmlWebpackPlugin = (\<lambda>a. JInstance ''HtmlWebpackPlugin'' [(''options'', a)]),
      ExtractTextPlugin = (\<lambda>a. JInstance ''ExtractTextPlugin'' [(''filename'', a)]),
      ExtractTextPlugin_extract = (\<lambda>a. JArr [a]),
      CopyWebpackPlugin = (\<lambda>a. JInstance ''CopyWebpackPlugin'' [(''patterns'', a)])\<rparr>"

section \<open>The same function on a store\<close>

text \<open>
  Whether a call changes an object of its caller depends on which objects are shared, so
  here the arrays and objects live in a store: an address is an index into the list of
  cells, a new object is appended, and a value is a primitive or the address of a cell.
  A cell is an array, a plain object or an instance of a class with its own enumerable
  properties; a property holds a value (an accessor property, whose read would run code
  of the caller, is not represented). A regular expression and a function are never
  changed by the module and stay values.
\<close>

type_synonym addr = nat

datatype hval =
    HUndefined
  | HNull
  | HBool bool
  | HNum int
  | HStr string
  | HRegExp regex
  | HFunction string
  | HRef addr

datatype hobj =
    HArr "hval list"
  | HObj "(string \<times> hval) list"
  | HInstance string "(string \<times> hval) list"

type_synonym heap = "hobj list"

definition cell :: "heap \<Rightarrow> hval \<Rightarrow> hobj option" where
  "cell h v = (case v of HRef a \<Rightarrow> (if a < length h then Some (h ! a) else None) | _ \<Rightarrow> None)"

definition alloc :: "heap \<Rightarrow> hobj \<Rightarrow> heap \<times> hval" where
  "alloc h obj = (h @ [obj], HRef (length h))"

fun h_truthy :: "hval \<Rightarrow> bool" where
  "h_truthy HUndefined = False"
| "h_truthy HNull = False"
| "h_truthy (HBool b) = b"
| "h_truthy (HNum n) = (n \<noteq> 0)"
| "h_truthy (HStr s) = (s \<noteq> [])"
| "h_truthy (HRegExp r) = True"
| "h_truthy (HFunction f) = True"
| "h_truthy (HRef a) = True"

definition h_isArray :: "heap \<Rightarrow> hval \<Rightarrow> bool" where
  "h_isArray h v = (case cell h v of Some (HArr xs) \<Rightarrow> True | _ \<Rightarrow> False)"

definition h_isMergeableObject :: "heap \<Rightarrow> hval \<Rightarrow> bool" where
  "h_isMergeableObject h v = (cell h v \<noteq> None)"

definition h_elems :: "heap \<Rightarrow> hval \<Rightarrow> hval list" where
  "h_elems h v = (case cell h v of Some (HArr xs) \<Rightarrow> xs | _ \<Rightarrow> [])"

text \<open>
  The own enumerable properties of a cell. The elements of an array are read with
  \<open>h_elems\<close>; the merge asks for the keys of no array.
\<close>

fun own :: "hobj \<Rightarrow> (string \<times> hval) list" where
  "own (HArr xs) = []"
| "own (HObj kvs) = kvs"
| "own (HInstance c kvs) = kvs"

definition h_keys :: "heap \<Rightarrow> hval \<Rightarrow> string list" where
  "h_keys h v = (case cell h v of Some obj \<Rightarrow> remdups (map fst (own obj)) | None \<Rightarrow> [])"

definition h_get :: "heap \<Rightarrow> hval \<Rightarrow> string \<Rightarrow> hval" where
  "h_get h v key =
     (case cell h v of
        Some obj \<Rightarrow> (case map_of (own obj) key of Some x \<Rightarrow> x | None \<Rightarrow> HUndefined)
      | None \<Rightarrow> HUndefined)"

text \<open>
  The write \<^verbatim>\<open>v[key] = x\<close> on an object (a named property of an array is not
  represented). It changes the cell that \<open>v\<close> points to, for every holder of that
  address.
\<close>

definition h_put :: "heap \<Rightarrow> hval \<Rightarrow> string \<Rightarrow> hval \<Rightarrow> heap" where
  "h_put h v key x =
     (case v of
        HRef a \<Rightarrow>
          (case cell h v of
             Some (HObj kvs) \<Rightarrow> h[a := HObj (AList.update key x kvs)]
           | Some (HInstance c kvs) \<Rightarrow> h[a := HInstance c (AList.update key x kvs)]
           | _ \<Rightarrow> h)
      | _ \<Rightarrow> h)"

definition h_spread :: "heap \<Rightarrow> hval \<Rightarrow> error + hval list" where
  "h_spread h v =
     (case v of
        HStr s \<Rightarrow> Inr (map (\<lambda>c. HStr [c]) s)
      | _ \<Rightarrow> (case cell h v of Some (HArr xs) \<Rightarrow> Inr xs | _ \<Rightarrow> Inl TypeError))"

text \<open>
  Array and object literals, and their evaluation: the parts are built first, then the
  cell of the literal itself is allocated.
\<close>

datatype lit =
    LVal hval
  | LArr "lit list"
  | LObj "(string \<times> lit) list"
  | LInstance string "(string \<times> lit) list"

fun build :: "heap \<Rightarrow> lit \<Rightarrow> heap \<times> hval"
  and build_list :: "heap \<Rightarrow> lit list \<Rightarrow> heap \<times> hval list"
  and build_props :: "heap \<Rightarrow> (string \<times> lit) list \<Rightarrow> heap \<times> (string \<times> hval) list"
where
  "build h (LVal v) = (h, v)"
| "build h (LArr ls) = (case build_list h ls of (h', vs) \<Rightarrow> alloc h' (HArr vs))"
| "build h (LObj kls) = (case build_props h kls of (h', kvs) \<Rightarrow> alloc h' (HObj kvs))"
| "build h (LInstance c kls) =
     (case build_props h kls of (h', kvs) \<Rightarrow> alloc h' (HInstance c kvs))"
| "build_list h [] = (h, [])"
| "build_list h (l # ls) =
     (case build h l of (h1, v) \<Rightarrow> (case build_list h1 ls of (h2, vs) \<Rightarrow> (h2, v # vs)))"
| "build_props h [] = (h, [])"
| "build_props h ((k, l) # kls) =
     (case build h l of (h1, v) \<Rightarrow>
        (case build_props h1 kls of (h2, kvs) \<Rightarrow> (h2, (k, v) # kvs)))"

text \<open>Loops over a list that thread the store and stop at the first throw.\<close>

fun mapH :: "(heap \<Rightarrow> 'a \<Rightarrow> heap \<times> (error + 'b)) \<Rightarrow> heap \<Rightarrow> 'a list \<Rightarrow> heap \<times> (error + 'b list)" where
  "mapH f h [] = (h, Inr [])"
| "mapH f h (x # xs) =
     (case f h x of
        (h1, Inl err) \<Rightarrow> (h1, Inl err)
      | (h1, Inr y) \<Rightarrow>
          (case mapH f h1 xs of
             (h2, Inl err) \<Rightarrow> (h2, Inl err)
           | (h2, Inr ys) \<Rightarrow> (h2, Inr (y # ys))))"

fun forEachH :: "(heap \<Rightarrow> 'a \<Rightarrow> heap \<times> (error + unit)) \<Rightarrow> heap \<Rightarrow> 'a list \<Rightarrow> heap \<times> (error + unit)" where
  "forEachH f h [] = (h, Inr ())"
| "forEachH f h (x # xs) =
     (case f h x of
        (h1, Inl err) \<Rightarrow> (h1, Inl err)
      | (h1, Inr u) \<Rightarrow> forEachH f h1 xs)"

text \<open>\<^verbatim>\<open>destination[key] = \<close> the outcome of a call, when the call returns.\<close>

definition assign :: "hval \<Rightarrow> string \<Rightarrow> heap \<times> (error + hval) \<Rightarrow> heap \<times> (error + unit)" where
  "assign destination key r =
     (case r of (h, Inl err) \<Rightarrow> (h, Inl err) | (h, Inr v) \<Rightarrow> (h_put h destination key v, Inr ()))"

text \<open>
  Modelled from the spec: the package \<^verbatim>\<open>deepmerge\<close> again, on the store. The first
  argument bounds the depth of the calls: a call that would go deeper throws
  \<^verbatim>\<open>RangeError\<close>, as the engine does when its stack is full (the merge of a cyclic
  object ends so). A result is written to new cells only: \<^verbatim>\<open>emptyTarget\<close>,
  \<^verbatim>\<open>concat\<close>, \<^verbatim>\<open>map\<close> and \<^verbatim>\<open>destination = {}\<close> each allocate. The
  destination is a plain object also when the source is an instance of a class.
\<close>

fun h_cloneUnlessOtherwiseSpecified :: "nat \<Rightarrow> heap \<Rightarrow> hval \<Rightarrow> heap \<times> (error + hval)"
  and h_defaultArrayMerge :: "nat \<Rightarrow> heap \<Rightarrow> hval \<Rightarrow> hval \<Rightarrow> heap \<times> (error + hval)"
  and h_mergeObject :: "nat \<Rightarrow> heap \<Rightarrow> hval \<Rightarrow> hval \<Rightarrow> heap \<times> (error + hval)"
  and h_deepmerge :: "nat \<Rightarrow> heap \<Rightarrow> hval \<Rightarrow> hval \<Rightarrow> heap \<times> (error + hval)"
where
  "h_cloneUnlessOtherwiseSpecified 0 h v = (h, Inl RangeError)"
| "h_cloneUnlessOtherwiseSpecified (Suc n) h v =
     (if h_isMergeableObject h v
      then (case alloc h (if h_isArray h v then HArr [] else HObj []) of
              (h1, target) \<Rightarrow> h_deepmerge n h1 target v)
      else (h, Inr v))"
| "h_defaultArrayMerge 0 h target source = (h, Inl RangeError)"
| "h_defaultArrayMerge (Suc n) h target source =
     (case alloc h (HArr (h_elems h target @ h_elems h source)) of
        (h1, joined) \<Rightarrow>
          (case mapH (\<lambda>h element. h_cloneUnlessOtherwiseSpecified n h element) h1 (h_elems h1 joined) of
             (h2, Inl err) \<Rightarrow> (h2, Inl err)
           | (h2, Inr xs) \<Rightarrow> (case alloc h2 (HArr xs) of (h3, arr) \<Rightarrow> (h3, Inr arr))))"
| "h_mergeObject 0 h target source = (h, Inl RangeError)"
| "h_mergeObject (Suc n) h target source =
     (case alloc h (HObj []) of
        (h0, destination) \<Rightarrow>
          (case (if h_isMergeableObject h0 target
                 then forEachH (\<lambda>h key. assign destination key
                                  (h_cloneUnlessOtherwiseSpecified n h (h_get h target key)))
                        h0 (h_keys h0 target)
                 else (h0, Inr ())) of
             (h1, Inl err) \<Rightarrow> (h1, Inl err)
           | (h1, Inr u) \<Rightarrow>
               if source = HNull \<or> source = HUndefined then (h1, Inl TypeError)
               else
               (case forEachH (\<lambda>h key. assign destination key
                                (if \<not> h_isMergeableObject h (h_get h source key) \<or>
                                    \<not> h_truthy (h_get h target key)
                                 then h_cloneUnlessOtherwiseSpecified n h (h_get h source key)
                                 else h_deepmerge n h (h_get h target key) (h_get h source key)))
                       h1 (h_keys h1 source) of
                  (h2, Inl err) \<Rightarrow> (h2, Inl err)
                | (h2, Inr u) \<Rightarrow> (h2, Inr destination))))"
| "h_deepmerge 0 h target source = (h, Inl RangeError)"
| "h_deepmerge (Suc n) h target source =
     (if h_isArray h source \<noteq> h_isArray h target then h_cloneUnlessOtherwiseSpecified n h source
      else if h_isArray h source then h_defaultArrayMerge n h target source
      else h_mergeObject n h target source)"

text \<open>
  The values of the first model as literals: the defaults of lines 45 to 73 and the rules
  that do not depend on the options are the same literals here.
\<close>

fun lit_of :: "jsval \<Rightarrow> lit" where
  "lit_of JUndefined = LVal HUndefined"
| "lit_of JNull = LVal HNull"
| "lit_of (JBool b) = LVal (HBool b)"
| "lit_of (JNum n) = LVal (HNum n)"
| "lit_of (JStr s) = LVal (HStr s)"
| "lit_of (JRegExp r) = LVal (HRegExp r)"
| "lit_of (JFunction f) = LVal (HFunction f)"
| "lit_of (JArr xs) = LArr (map lit_of xs)"
| "lit_of (JObj kvs) = LObj (map (\<lambda>(k, v). (k, lit_of v)) kvs)"
| "lit_of (JInstance c kvs) = LInstance c (map (\<lambda>(k, v). (k, lit_of v)) kvs)"

text \<open>
  Code of other packages and of the caller, on the store: the three plugin classes,
  \<^verbatim>\<open>ExtractTextPlugin.extract\<close>, and a function that the caller has put into the
  overrides (\<open>h_call x f h this a\<close> is the call of the function \<open>f\<close> on \<open>this\<close> with the
  argument \<open>a\<close>). Each is any function from the store and its argument to a store and
  a result; a constructor and \<^verbatim>\<open>extract\<close> return, as in the record \<open>env\<close>.
\<close>

record externals =
  h_HtmlWebpackPlugin :: "heap \<Rightarrow> hval \<Rightarrow> heap \<times> hval"
  h_ExtractTextPlugin :: "heap \<Rightarrow> hval \<Rightarrow> heap \<times> hval"
  h_CopyWebpackPlugin :: "heap \<Rightarrow> hval \<Rightarrow> heap \<times> hval"
  h_extract :: "heap \<Rightarrow> hval \<Rightarrow> heap \<times> hval"
  h_call :: "string \<Rightarrow> heap \<Rightarrow> hval \<Rightarrow> hval \<Rightarrow> heap \<times> (error + unit)"

text \<open>
  \<^verbatim>\<open>v.push(a)\<close>: on an array the element is appended to the cell that \<open>v\<close> points to,
  for every holder of that address. On an object or an instance whose own property
  \<^verbatim>\<open>push\<close> is a function, that function is called; anything else is not callable.
  The method is looked up when it is called.
\<close>

definition h_push :: "externals \<Rightarrow> heap \<Rightarrow> hval \<Rightarrow> hval \<Rightarrow> heap \<times> (error + unit)" where
  "h_push x h v a =
     (case v of
        HRef r \<Rightarrow>
          (case cell h v of
             Some (HArr xs) \<Rightarrow> (h[r := HArr (xs @ [a])], Inr ())
           | Some obj \<Rightarrow>
               (case map_of (own obj) ''push'' of
                  Some (HFunction f) \<Rightarrow> h_call x f h v a
                | _ \<Rightarrow> (h, Inl TypeError))
           | None \<Rightarrow> (h, Inl TypeError))
      | _ \<Rightarrow> (h, Inl TypeError))"

text \<open>
  The \<^verbatim>\<open>return\<close> statement, lines 83 to 181, in the order of evaluation: a
  read of the options, a spread and a call of external code come in the order of the
  source, and the cells of the literal are allocated at the end. The rule for style
  sheets, lines 122 to 148, is the first function; the rule for scripts, lines 149 to
  161, is read after \<^verbatim>\<open>extract\<close> has run.
\<close>

definition h_style_rule :: "env \<Rightarrow> externals \<Rightarrow> heap \<Rightarrow> hval \<Rightarrow> heap \<times> (error + hval)" where
  "h_style_rule e x h options =
     (case h_spread h (h_get h options ''includePaths'') of Inl err \<Rightarrow> (h, Inl err) | Inr includePaths \<Rightarrow>
     (case build h (LObj
         [(''fallback'', LObj [(''loader'', LVal (HStr (require_resolve e ''style-loader'')))]),
          (''use'', LArr
             [LObj [(''loader'', LVal (HStr (require_resolve e ''css-loader''))),
                    (''options'', LObj [(''minimize'', LVal (h_get h options ''minimize'')),
                                        (''sourceMap'', LVal (h_get h options ''sourceMap''))])],
              LObj [(''loader'', LVal (HStr (require_resolve e ''sass-loader''))),
                    (''options'', LObj [(''minimize'', LVal (h_get h options ''minimize'')),
                                        (''sourceMap'', LVal (h_get h options ''sourceMap'')),
                                        (''includePaths'', LArr (map LVal includePaths))])]])])
      of (h, argument) \<Rightarrow>
     (case h_extract x h argument of (h, use) \<Rightarrow>
     (case build h (LObj [(''test'', LVal (HRegExp re_style)), (''use'', LVal use)])
      of (h, rule) \<Rightarrow> (h, Inr rule)))))"

definition h_script_rule :: "env \<Rightarrow> heap \<Rightarrow> hval \<Rightarrow> lit" where
  "h_script_rule e h options = LObj
     [(''test'', LVal (HRegExp re_script)),
      (''exclude'', LVal (h_get h options ''exclude'')),
      (''use'', LObj [(''loader'', LVal (HStr (require_resolve e ''babel-loader''))),
                      (''options'', LVal (h_get h options ''babel''))])]"

definition h_returned :: "env \<Rightarrow> externals \<Rightarrow> heap \<Rightarrow> string \<Rightarrow> hval \<Rightarrow> heap \<times> (error + hval)" where
  "h_returned e x h dir options =
     (let mode = h_get h options ''mode'';
          devtool = h_get h options ''devtool'';
          context = h_get h options ''context'' in
     (case h_ExtractTextPlugin x h (HStr ''[name].css'') of (h, extractText) \<Rightarrow>
     (case h_CopyWebpackPlugin x h (h_get h options ''copy'') of (h, copy) \<Rightarrow>
     (case h_spread h (h_get h options ''plugins'') of Inl err \<Rightarrow> (h, Inl err) | Inr options_plugins \<Rightarrow>
     (let entry = h_get h options ''entry'';
          minimize = h_get h options ''minimize'';
          splitChunks = h_get h options ''splitChunks'';
          runtimeChunk = h_get h options ''runtimeChunk'';
          outputPath = h_get h options ''outputPath'' in
     (case h_spread h (h_get h options ''rules'') of Inl err \<Rightarrow> (h, Inl err) | Inr options_rules \<Rightarrow>
     (case h_style_rule e x h options of (h, Inl err) \<Rightarrow> (h, Inl err) | (h, Inr style) \<Rightarrow>
     (case build h (LObj
        [(''mode'', LVal mode),
         (''devtool'', LVal devtool),
         (''context'', LVal context),
         (''plugins'', LArr (map LVal ([extractText, copy] @ options_plugins))),
         (''entry'', LVal entry),
         (''optimization'', LObj [(''minimize'', LVal minimize),
                                  (''splitChunks'', LVal splitChunks),
                                  (''runtimeChunk'', LVal runtimeChunk)]),
         (''output'', LObj [(''path'', LVal outputPath),
                            (''sourceMapFilename'', LVal (HStr ''[file].map'')),
                            (''filename'', LVal (HStr ''[name].js''))]),
         (''resolve'', LObj [(''modules'', LArr
              [LVal (HStr ''node_modules''),
               LVal (HStr (path_resolve (cwd e) [dir, ''node_modules''])),
               LVal (HStr (path_resolve (cwd e) [cliRoot e, ''node_modules'']))])]),
         (''module'', LObj [(''rules'', LArr (map LVal options_rules @
              [lit_of (image_rule e), LVal style, h_script_rule e h options,
               lit_of (font_rule e), lit_of (svg_rule e)]))])])
      of (h, config) \<Rightarrow> (h, Inr config)))))))))"

text \<open>
  \<^verbatim>\<open>createWebpack(dir, options = {})\<close> on the store; \<open>depth\<close> is the depth of calls
  the merge may use. The outcome is the store after the call together with the error
  thrown or the address of the returned configuration. In line 80 the object
  \<^verbatim>\<open>options.plugins\<close> is read first, a read through \<^verbatim>\<open>null\<close> or \<^verbatim>\<open>undefined\<close>
  throws before the plugin is made, and the call of \<^verbatim>\<open>push\<close> follows the constructor.
\<close>

definition h_createWebpack ::
    "nat \<Rightarrow> env \<Rightarrow> externals \<Rightarrow> heap \<Rightarrow> string \<Rightarrow> hval \<Rightarrow> heap \<times> (error + hval)" where
  "h_createWebpack depth e x h dir options0 =
     (case (if options0 = HUndefined then alloc h (HObj []) else (h, options0)) of (h, options) \<Rightarrow>
     (case realpathSync e dir of Inl err \<Rightarrow> (h, Inl err) | Inr realDir \<Rightarrow>
     (case build h (lit_of (defaults e dir realDir)) of (h, dflt) \<Rightarrow>
     (case h_deepmerge depth h dflt options of (h, Inl err) \<Rightarrow> (h, Inl err) | (h, Inr options) \<Rightarrow>
     (let h = (if \<not> h_truthy (h_get h options ''sourceMap'')
               then h_put h options ''devtool'' (HBool False) else h);
          html = h_get h options ''html'' in
      if html = HNull \<or> html = HUndefined then (h, Inl TypeError)
      else
     (let template = h_get h html ''template'' in
     (case (if h_truthy template
            then (let options_plugins = h_get h options ''plugins'' in
                  if options_plugins = HNull \<or> options_plugins = HUndefined then (h, Inl TypeError)
                  else (case h_HtmlWebpackPlugin x h template of
                          (h, plugin) \<Rightarrow> h_push x h options_plugins plugin))
            else (h, Inr ())) of
        (h, Inl err) \<Rightarrow> (h, Inl err)
      | (h, Inr u) \<Rightarrow> h_returned e x h dir options)))))))"

text \<open>
  Externals for the examples: a plugin is a new instance of its class that holds the
  argument of its constructor, \<^verbatim>\<open>extract\<close> wraps its argument in a new array, and a
  function of the caller does nothing.
\<close>

definition example_externals :: externals where
  "example_externals =
     \<lparr>h_HtmlWebpackPlugin = (\<lambda>h a. alloc h (HInstance ''HtmlWebpackPlugin'' [(''options'', a)])),
      h_ExtractTextPlugin = (\<lambda>h a. alloc h (HInstance ''ExtractTextPlugin'' [(''filename'', a)])),
      h_CopyWebpackPlugin = (\<lambda>h a. alloc h (HInstance ''CopyWebpackPlugin'' [(''patterns'', a)])),
      h_extract = (\<lambda>h a. alloc h (HArr [a])),
      h_call = (\<lambda>f h this a. (h, Inr ()))\<rparr>"

text \<open>
  A caller's store: at address 0 a plugin, an instance of a class; at 1 the array
  \<^verbatim>\<open>[plugin]\<close>; at 2 the object \<^verbatim>\<open>{template: 't.html'}\<close>; at 3 the overrides
  \<^verbatim>\<open>{html: {template: 't.html'}, plugins: [plugin]}\<close>.
\<close>

definition example_heap :: heap where
  "example_heap =
     [HInstance ''BannerPlugin'' [(''banner'', HStr ''hello'')],
      HArr [HRef 0],
      HObj [(''template'', HStr ''t.html'')],
      HObj [(''html'', HRef 2), (''plugins'', HRef 1)]]"

text \<open>
  Notions for the statements about the store. A value is newer than a store of \<open>n\<close>
  cells when it is no address below \<open>n\<close>; the outcome of a call is fresh for the store
  \<open>h\<close> of its start when \<open>h\<close> is a prefix of the store it leaves and what it returns
  is newer than \<open>h\<close>, and so is every own property of the cell it returns.
\<close>

definition newer :: "nat \<Rightarrow> hval \<Rightarrow> bool" where
  "newer n v = (case v of HRef a \<Rightarrow> n \<le> a | _ \<Rightarrow> True)"

definition props_newer :: "nat \<Rightarrow> heap \<Rightarrow> hval \<Rightarrow> bool" where
  "props_newer n h v =
     (case cell h v of Some obj \<Rightarrow> list_all (\<lambda>(k, w). newer n w) (own obj) | None \<Rightarrow> True)"

definition fresh_result :: "heap \<Rightarrow> heap \<times> (error + hval) \<Rightarrow> bool" where
  "fresh_result h r =
     (prefix h (fst r) \<and>
      (case snd r of Inl e \<Rightarrow> True
       | Inr w \<Rightarrow> newer (length h) w \<and> props_newer (length h) (fst r) w))"

text \<open>The cell of a destination under construction, at address \<open>d\<close>.\<close>

definition dest_inv :: "heap \<Rightarrow> nat \<Rightarrow> heap \<Rightarrow> bool" where
  "dest_inv h d hk =
     (prefix h hk \<and> length h \<le> d \<and> d < length hk \<and>
      (\<exists>kvs. hk ! d = HObj kvs \<and> list_all (\<lambda>(k, w). newer (length h) w) kvs))"

section \<open>Properties of the merge\<close>

declare cloneUnlessOtherwiseSpecified.simps [simp del] defaultArrayMerge.simps [simp del]
  mergeObject.simps [simp del] deepmerge.simps [simp del]

lemma map_of_fold_update:
  "map_of (fold (\<lambda>k d. AList.update k (f k) d) ks d0) k
     = (if k \<in> set ks then Some (f k) else map_of d0 k)"
  by (induction ks arbitrary: d0) (auto simp: update_conv')

lemma mergeObject_unfold:
  "mergeObject target source =
     JObj (fold (\<lambda>key d. AList.update key
                 (if \<not> isMergeableObject (get source key) \<or> \<not> truthy (get target key)
                  then cloneUnlessOtherwiseSpecified (get source key)
                  else deepmerge (get target key) (get source key)) d)
             (Object_keys source)
             (if isMergeableObject target
              then fold (\<lambda>key d. AList.update key (cloneUnlessOtherwiseSpecified (get target key)) d)
                     (Object_keys target) []
              else []))"
proof -
  have "(\<lambda>key d. if \<not> isMergeableObject (get source key) \<or> \<not> truthy (get target key)
                  then AList.update key (cloneUnlessOtherwiseSpecified (get source key)) d
                  else AList.update key (deepmerge (get target key) (get source key)) d)
      = (\<lambda>key d. AList.update key
                 (if \<not> isMergeableObject (get source key) \<or> \<not> truthy (get target key)
                  then cloneUnlessOtherwiseSpecified (get source key)
                  else deepmerge (get target key) (get source key)) d)"
    by (intro ext) simp
  then show ?thesis by (simp add: mergeObject.simps Let_def)
qed

lemma get_mergeObject:
  "get (mergeObject target source) k =
     (if k \<in> set (Object_keys source)
      then (if \<not> isMergeableObject (get source k) \<or> \<not> truthy (get target k)
            then cloneUnlessOtherwiseSpecified (get source k)
            else deepmerge (get target k) (get source k))
      else if isMergeableObject target \<and> k \<in> set (Object_keys target)
      then cloneUnlessOtherwiseSpecified (get target k)
      else JUndefined)"
  by (simp add: mergeObject_unfold map_of_fold_update)

lemma deepmerge_objects:
  "\<not> isArray target \<Longrightarrow> \<not> isArray source \<Longrightarrow> deepmerge target source = mergeObject target source"
  by (simp add: deepmerge.simps)

lemma clone_scalar: "\<not> isMergeableObject v \<Longrightarrow> cloneUnlessOtherwiseSpecified v = v"
  by (simp add: cloneUnlessOtherwiseSpecified.simps)

lemma clone_array: "cloneUnlessOtherwiseSpecified (JArr xs) = JArr (map cloneUnlessOtherwiseSpecified xs)"
  by (simp add: cloneUnlessOtherwiseSpecified.simps deepmerge.simps defaultArrayMerge.simps emptyTarget_def)

lemma deepmerge_arrays:
  "deepmerge (JArr xs) (JArr ys) = JArr (map cloneUnlessOtherwiseSpecified (xs @ ys))"
  by (simp add: deepmerge.simps defaultArrayMerge.simps)

lemma update_fresh: "k \<notin> fst ` set al \<Longrightarrow> AList.update k v al = al @ [(k, v)]"
  by (induction al) auto

lemma fold_update_distinct:
  "distinct ks \<Longrightarrow> set ks \<inter> fst ` set d = {} \<Longrightarrow>
   fold (\<lambda>k d. AList.update k (f k) d) ks d = d @ map (\<lambda>k. (k, f k)) ks"
proof (induction ks arbitrary: d)
  case Nil
  then show ?case by simp
next
  case (Cons k ks)
  from Cons.prems have k: "k \<notin> fst ` set d" by auto
  have "set ks \<inter> fst ` set (d @ [(k, f k)]) = {}" using Cons.prems by auto
  with Cons.IH[of "d @ [(k, f k)]"] Cons.prems(1) k show ?case
    by (simp add: update_fresh)
qed

lemma clone_object:
  "distinct (map fst kvs) \<Longrightarrow>
   cloneUnlessOtherwiseSpecified (JObj kvs) = JObj (map (\<lambda>(k, v). (k, cloneUnlessOtherwiseSpecified v)) kvs)"
proof -
  assume d: "distinct (map fst kvs)"
  have "cloneUnlessOtherwiseSpecified (JObj kvs) = mergeObject (JObj []) (JObj kvs)"
    by (simp add: cloneUnlessOtherwiseSpecified.simps deepmerge.simps emptyTarget_def)
  also have "\<dots> = JObj (map (\<lambda>k. (k, cloneUnlessOtherwiseSpecified (get (JObj kvs) k))) (map fst kvs))"
    using d by (simp add: mergeObject_unfold fold_update_distinct distinct_remdups_id)
  also have "map (\<lambda>k. (k, cloneUnlessOtherwiseSpecified (get (JObj kvs) k))) (map fst kvs)
      = map (\<lambda>(k, v). (k, cloneUnlessOtherwiseSpecified v)) kvs"
    using d by (auto simp: map_of_eq_Some_iff[OF d] split: option.splits dest: eq_key_imp_eq_value)
  finally show ?thesis .
qed

lemma clone_id: "distinct_keys v \<Longrightarrow> cloneUnlessOtherwiseSpecified v = v"
proof (induction v)
  case (JArr xs)
  then have "map cloneUnlessOtherwiseSpecified xs = xs"
    by (intro map_idI) (simp add: list_all_iff)
  then show ?case by (simp add: clone_array)
next
  case (JObj kvs)
  then have "map (\<lambda>(k, v). (k, cloneUnlessOtherwiseSpecified v)) kvs = kvs"
    by (intro map_idI) (fastforce simp: list_all_iff snds.simps)
  with JObj.prems show ?case by (simp add: clone_object)
next
  case (JInstance c kvs)
  then show ?case by simp
qed (simp_all add: clone_scalar)

text \<open>The copy of an instance of a class is a plain object: the class is lost.\<close>

lemma clone_instance:
  "\<exists>kvs'. cloneUnlessOtherwiseSpecified (JInstance c kvs) = JObj kvs'"
  by (simp add: cloneUnlessOtherwiseSpecified.simps deepmerge.simps emptyTarget_def
                mergeObject_unfold)


lemma get_put: "get (put (JObj kvs) k v) k' = (if k' = k then v else get (JObj kvs) k')"
  by (simp add: update_conv')

lemma put_is_object: "put (JObj kvs) k v = JObj (AList.update k v kvs)"
  by simp

lemma mergedOptions_Inr:
  assumes "mergedOptions e dir realDir options = Inr m"
  shows "options \<noteq> JNull"
    and "m = deepmerge (defaults e dir realDir) (if options = JUndefined then JObj [] else options)"
  using assms by (auto simp: mergedOptions_def merge_def defaults_def split: if_splits)

lemma mergedOptions_array:
  assumes "mergedOptions e dir realDir options = Inr m" and "isArray options"
  shows "isArray m"
proof -
  from assms(2) obtain xs where xs: "options = JArr xs" by (cases options) auto
  with mergedOptions_Inr(2)[OF assms(1)] show ?thesis
    by (simp add: deepmerge.simps defaults_def clone_array)
qed

lemma mergedOptions_object:
  assumes "mergedOptions e dir realDir options = Inr m" and "\<not> isArray options"
  shows "m = mergeObject (defaults e dir realDir) (if options = JUndefined then JObj [] else options)"
  using mergedOptions_Inr(2)[OF assms(1)] assms(2)
  by (simp add: deepmerge.simps defaults_def)

lemma mergeObject_is_object: "\<exists>kvs. mergeObject t s = JObj kvs"
  by (simp add: mergeObject_unfold)

lemma get_array: "isArray m \<Longrightarrow> get m k = JUndefined"
  by (cases m) auto

lemma Object_keys_default [simp]: "Object_keys (if options = JUndefined then JObj [] else options) = Object_keys options"
  by simp

lemma get_default [simp]: "get (if options = JUndefined then JObj [] else options) k = get options k"
  by simp



lemma get_put_obj:
  "\<exists>kvs. m = JObj kvs \<Longrightarrow> get (put m k v) k' = (if k' = k then v else get m k')"
  by (auto simp: update_conv')

lemma put_obj: "\<exists>kvs. m = JObj kvs \<Longrightarrow> \<exists>kvs. put m k v = JObj kvs"
  by auto

lemma put_array: "isArray m \<Longrightarrow> put m k v = m"
  by (cases m) auto

lemma mergedOptions_shape:
  assumes "mergedOptions e dir realDir options = Inr m"
  shows "isArray m \<or> (\<exists>kvs. m = JObj kvs)"
proof (cases "isArray options")
  case True
  from mergedOptions_array[OF assms True] show ?thesis by simp
next
  case False
  from mergedOptions_object[OF assms False] mergeObject_is_object show ?thesis by metis
qed

lemma push_Inr: "push v x = Inr arr \<Longrightarrow> \<exists>ps. v = JArr ps \<and> arr = JArr (ps @ [x])"
  by (cases v) auto

lemma returned_Inr:
  assumes "returned e dir opts = Inr cfg"
  shows "\<exists>ps rs ips.
      spread (get opts ''plugins'') = Inr ps \<and>
      spread (get opts ''rules'') = Inr rs \<and>
      spread (get opts ''includePaths'') = Inr ips \<and>
      mode cfg = get opts ''mode'' \<and>
      devtool cfg = get opts ''devtool'' \<and>
      context cfg = get opts ''context'' \<and>
      plugins cfg = [ExtractTextPlugin e (JStr ''[name].css''), CopyWebpackPlugin e (get opts ''copy'')] @ ps \<and>
      path (output cfg) = get opts ''outputPath'' \<and>
      rules (module cfg) = rs @ [image_rule e, style_rule e opts ips, script_rule e opts,
                                font_rule e, svg_rule e]"
  using assms by (auto simp: returned_def split: sum.splits)

section \<open>What \<^verbatim>\<open>createWebpack\<close> returns\<close>

text \<open>A returned configuration, in terms of the merged options.\<close>

lemma createWebpack_Inr:
  assumes "createWebpack e dir options = Inr cfg"
  shows "\<exists>realDir m ps rs ips.
      realpathSync e dir = Inr realDir \<and>
      mergedOptions e dir realDir options = Inr m \<and>
      \<not> isArray options \<and>
      get m ''html'' \<noteq> JNull \<and> get m ''html'' \<noteq> JUndefined \<and>
      spread (get m ''plugins'') = Inr ps \<and>
      spread (get m ''rules'') = Inr rs \<and>
      spread (get m ''includePaths'') = Inr ips \<and>
      mode cfg = get m ''mode'' \<and>
      devtool cfg = (if truthy (get m ''sourceMap'') then get m ''devtool'' else JBool False) \<and>
      context cfg = get m ''context'' \<and>
      plugins cfg = [ExtractTextPlugin e (JStr ''[name].css''), CopyWebpackPlugin e (get m ''copy'')]
         @ ps @ (if truthy (get (get m ''html'') ''template'')
                 then [HtmlWebpackPlugin e (get (get m ''html'') ''template'')] else []) \<and>
      path (output cfg) = get m ''outputPath'' \<and>
      rules (module cfg) = rs @ [image_rule e, style_rule e m ips, script_rule e m,
                                font_rule e, svg_rule e]"
proof -
  from assms obtain realDir where rd: "realpathSync e dir = Inr realDir"
    by (auto simp: createWebpack_def split: sum.splits)
  with assms obtain m where m: "mergedOptions e dir realDir options = Inr m"
    by (auto simp: createWebpack_def split: sum.splits)
  define o1 where "o1 = (if \<not> truthy (get m ''sourceMap'')
                          then put m ''devtool'' (JBool False) else m)"
  define t where "t = get (get o1 ''html'') ''template''"
  from assms rd m have html1: "get o1 ''html'' \<noteq> JNull \<and> get o1 ''html'' \<noteq> JUndefined"
    by (auto simp: createWebpack_def o1_def getE_def Let_def split: if_splits)
  have obj: "\<exists>kvs. m = JObj kvs"
  proof (rule ccontr)
    assume "\<not> (\<exists>kvs. m = JObj kvs)"
    with mergedOptions_shape[OF m] have n: "isArray m" by simp
    then have "o1 = m" by (simp add: o1_def put_array)
    with html1 get_array[OF n] show False by simp
  qed
  have get1: "get o1 k = (if k = ''devtool'' \<and> \<not> truthy (get m ''sourceMap'')
                           then JBool False else get m k)" for k
    using obj by (simp add: o1_def get_put_obj)
  have obj1: "\<exists>kvs. o1 = JObj kvs"
    using obj put_obj[OF obj] by (simp add: o1_def)
  have html: "get m ''html'' \<noteq> JNull \<and> get m ''html'' \<noteq> JUndefined"
    using html1 by (simp add: get1)
  have na: "\<not> isArray options"
    using mergedOptions_array[OF m] html get_array by blast
  have t: "t = get (get m ''html'') ''template''"
    by (simp add: t_def get1)
  from assms rd m html1 have stage:
    "(case (if truthy t
            then (case push (get o1 ''plugins'') (HtmlWebpackPlugin e t) of
                    Inl err \<Rightarrow> Inl err
                  | Inr arr \<Rightarrow> Inr (put o1 ''plugins'' arr))
            else Inr o1) of Inl err \<Rightarrow> Inl err | Inr o2 \<Rightarrow> returned e dir o2) = Inr cfg"
    by (simp add: createWebpack_def o1_def[symmetric] t_def getE_def Let_def split: if_splits)
  show ?thesis
  proof (cases "truthy t")
    case False
    with stage have "returned e dir o1 = Inr cfg" by simp
    from returned_Inr[OF this] False rd m na html show ?thesis
      by (auto simp: get1 t[symmetric] style_rule_def script_rule_def)
  next
    case True
    with stage obtain arr where arr: "push (get o1 ''plugins'') (HtmlWebpackPlugin e t) = Inr arr"
      and ret: "returned e dir (put o1 ''plugins'' arr) = Inr cfg"
      by (auto split: sum.splits)
    from push_Inr[OF arr] obtain ps where ps: "get o1 ''plugins'' = JArr ps"
      and arr': "arr = JArr (ps @ [HtmlWebpackPlugin e t])" by auto
    from ps have psm: "get m ''plugins'' = JArr ps" by (simp add: get1)
    from returned_Inr[OF ret] True rd m na html psm show ?thesis
      by (auto simp: get_put_obj[OF obj1] get1 arr' t[symmetric] style_rule_def script_rule_def)
  qed
qed

lemma merged_get:
  assumes "mergedOptions e dir realDir options = Inr m" and "\<not> isArray options"
  shows "get m k =
     (if k \<in> set (Object_keys options)
      then (if \<not> isMergeableObject (get options k) \<or> \<not> truthy (get (defaults e dir realDir) k)
            then cloneUnlessOtherwiseSpecified (get options k)
            else deepmerge (get (defaults e dir realDir) k) (get options k))
      else cloneUnlessOtherwiseSpecified (get (defaults e dir realDir) k))"
proof -
  have d: "isMergeableObject (defaults e dir realDir)" by (simp add: defaults_def)
  have u: "k \<notin> set (Object_keys v) \<Longrightarrow> get v k = JUndefined" for v
    by (cases v) (auto split: option.splits dest!: map_of_SomeD intro: rev_image_eqI)
  show ?thesis
    unfolding mergedOptions_object[OF assms] get_mergeObject using d u
    by (simp add: clone_scalar)
qed

lemma defaults_get:
  "get (defaults e dir realDir) ''outputPath'' = JStr (path_resolve (cwd e) [dir, ''dist''])"
  "get (defaults e dir realDir) ''context'' = JStr realDir"
  "get (defaults e dir realDir) ''plugins'' = JArr []"
  "get (defaults e dir realDir) ''rules'' = JArr []"
  by (simp_all add: defaults_def)

lemma key_of_get: "get v k \<noteq> JUndefined \<Longrightarrow> k \<in> set (Object_keys v)"
  by (cases v) (auto split: option.splits dest!: map_of_SomeD intro: rev_image_eqI)

lemma merged_array_absent:
  assumes m: "mergedOptions e dir realDir options = Inr m" and na: "\<not> isArray options"
      and d: "get (defaults e dir realDir) k = JArr []"
      and u: "k \<notin> set (Object_keys options)"
  shows "get m k = JArr []"
proof -
  have "get m k = cloneUnlessOtherwiseSpecified (JArr [])"
    using u by (simp only: merged_get[OF m na] d if_False)
  then show ?thesis by (simp add: clone_array)
qed

lemma merged_array_copy:
  assumes m: "mergedOptions e dir realDir options = Inr m" and na: "\<not> isArray options"
      and d: "get (defaults e dir realDir) k = JArr []"
      and g: "get options k = JArr us"
  shows "get m k = JArr (map cloneUnlessOtherwiseSpecified us)"
proof -
  from g have "k \<in> set (Object_keys options)" using key_of_get[of options k] by simp
  then have "get m k = deepmerge (JArr []) (JArr us)"
    by (simp add: merged_get[OF m na] d g)
  then show ?thesis by (simp add: deepmerge_arrays)
qed

lemma merged_array_field:
  assumes m: "mergedOptions e dir realDir options = Inr m" and na: "\<not> isArray options"
      and d: "get (defaults e dir realDir) k = JArr []"
      and u: "k \<notin> set (Object_keys options) \<and> us = [] \<or>
              get options k = JArr us \<and> list_all distinct_keys us"
  shows "get m k = JArr us"
proof (cases "k \<in> set (Object_keys options)")
  case False
  have "get options k \<noteq> JArr us" using key_of_get[of options k] False by auto
  with u have "us = []" by blast
  have "get m k = cloneUnlessOtherwiseSpecified (JArr [])"
    using False by (simp only: merged_get[OF m na] d if_False)
  then show ?thesis using \<open>us = []\<close> by (simp add: clone_array)
next
  case True
  with u have g: "get options k = JArr us" and dk: "list_all distinct_keys us" by blast+
  from dk have c: "map cloneUnlessOtherwiseSpecified us = us"
    by (intro map_idI) (simp add: list_all_iff clone_id)
  have "get m k = deepmerge (JArr []) (JArr us)"
    using True by (simp add: merged_get[OF m na] d g)
  then show ?thesis by (simp add: deepmerge_arrays c)
qed

section \<open>What the regular expressions match\<close>

lemma words_Seq_iff:
  "(w, e) \<in> set (words (Seq a b)) \<longleftrightarrow>
     (\<exists>u ea v eb. (u, ea) \<in> set (words a) \<and> (v, eb) \<in> set (words b) \<and> (ea \<longrightarrow> v = []) \<and>
                   w = u @ v \<and> e = (ea \<or> eb))"
proof
  assume "(w, e) \<in> set (words (Seq a b))"
  then obtain p where p: "p \<in> set (words a)"
    and "(w, e) \<in> (\<lambda>q. (fst p @ fst q, snd p \<or> snd q)) ` {q \<in> set (words b). snd p \<longrightarrow> fst q = []}"
    by (auto simp: split_beta)
  then obtain q where q: "q \<in> set (words b)" "snd p \<longrightarrow> fst q = []"
    and we: "w = fst p @ fst q" "e = (snd p \<or> snd q)"
    by blast
  have "(fst p, snd p) \<in> set (words a)" "(fst q, snd q) \<in> set (words b)"
    using p q by simp_all
  with q(2) we show "\<exists>u ea v eb. (u, ea) \<in> set (words a) \<and> (v, eb) \<in> set (words b) \<and>
      (ea \<longrightarrow> v = []) \<and> w = u @ v \<and> e = (ea \<or> eb)"
    by blast
next
  assume "\<exists>u ea v eb. (u, ea) \<in> set (words a) \<and> (v, eb) \<in> set (words b) \<and> (ea \<longrightarrow> v = []) \<and>
                   w = u @ v \<and> e = (ea \<or> eb)"
  then obtain u ea v eb where a: "(u, ea) \<in> set (words a)" and b: "(v, eb) \<in> set (words b)"
    and c: "ea \<longrightarrow> v = []" and we: "w = u @ v" "e = (ea \<or> eb)"
    by blast
  from b c have "(v, eb) \<in> {q \<in> set (words b). snd (u, ea) \<longrightarrow> fst q = []}" by simp
  then have "(fst (u, ea) @ fst (v, eb), snd (u, ea) \<or> snd (v, eb))
      \<in> (\<lambda>q. (fst (u, ea) @ fst q, snd (u, ea) \<or> snd q)) ` {q \<in> set (words b). snd (u, ea) \<longrightarrow> fst q = []}"
    by (rule imageI)
  with a have "\<exists>p \<in> set (words a). (w, e) \<in> (\<lambda>q. (fst p @ fst q, snd p \<or> snd q)) `
      {q \<in> set (words b). snd p \<longrightarrow> fst q = []}"
    unfolding we by (intro bexI[of _ "(u, ea)"]) simp_all
  then show "(w, e) \<in> set (words (Seq a b))"
    by (simp add: split_beta)
qed

lemma rmatch_words:
  "t \<in> set (rmatch r s) \<longleftrightarrow> (\<exists>w e. (w, e) \<in> set (words r) \<and> s = w @ t \<and> (e \<longrightarrow> t = []))"
proof (induction r arbitrary: s t)
  case (Chr c)
  show ?case by (cases s) auto
next
  case (Seq a b)
  have "t \<in> set (rmatch (Seq a b) s) \<longleftrightarrow> (\<exists>m. m \<in> set (rmatch a s) \<and> t \<in> set (rmatch b m))"
    by auto
  also have "\<dots> \<longleftrightarrow> (\<exists>m u ea v eb. (u, ea) \<in> set (words a) \<and> s = u @ m \<and> (ea \<longrightarrow> m = []) \<and>
                                  (v, eb) \<in> set (words b) \<and> m = v @ t \<and> (eb \<longrightarrow> t = []))"
    unfolding Seq.IH by blast
  also have "\<dots> \<longleftrightarrow> (\<exists>u ea v eb. (u, ea) \<in> set (words a) \<and> (v, eb) \<in> set (words b) \<and>
                      (ea \<longrightarrow> v = []) \<and> s = (u @ v) @ t \<and> ((ea \<or> eb) \<longrightarrow> t = []))"
    by (simp add: ex_comm[of "\<lambda>m u. \<exists>ea v eb. _ m u ea v eb"]) blast
  also have "\<dots> \<longleftrightarrow> (\<exists>w e. (w, e) \<in> set (words (Seq a b)) \<and> s = w @ t \<and> (e \<longrightarrow> t = []))"
    unfolding words_Seq_iff by blast
  finally show ?case .
next
  case (Alt a b)
  then show ?case by (simp del: ex_simps) blast
next
  case (Opt a)
  then show ?case by (simp del: ex_simps) blast
next
  case Eps
  show ?case by auto
next
  case EndOfInput
  show ?case by auto
qed

lemma suffix_or_sublist:
  "(\<exists>t'. suffix (w @ t') s \<and> (e \<longrightarrow> t' = [])) \<longleftrightarrow> (if e then suffix w s else sublist w s)"
proof (cases e)
  case True
  then show ?thesis by simp
next
  case False
  have "(\<exists>t'. suffix (w @ t') s) \<longleftrightarrow> sublist w s"
    unfolding suffix_def sublist_def by auto
  with False show ?thesis by simp
qed

lemma regex_test_words:
  "regex_test r s \<longleftrightarrow> (\<exists>(w, e) \<in> set (words r). if e then suffix w s else sublist w s)"
proof -
  have ne: "xs \<noteq> [] \<longleftrightarrow> (\<exists>x. x \<in> set xs)" for xs :: "string list"
    by (cases xs) auto
  have "regex_test r s \<longleftrightarrow> (\<exists>t. suffix t s \<and> (\<exists>t'. t' \<in> set (rmatch r t)))"
    by (simp add: regex_test_def list_ex_iff in_set_suffixes Bex_def ne)
  also have "\<dots> \<longleftrightarrow> (\<exists>t. suffix t s \<and> (\<exists>t' w e. (w, e) \<in> set (words r) \<and> t = w @ t' \<and> (e \<longrightarrow> t' = [])))"
    by (simp only: rmatch_words)
  also have "\<dots> \<longleftrightarrow> (\<exists>w e. (w, e) \<in> set (words r) \<and> (\<exists>t'. suffix (w @ t') s \<and> (e \<longrightarrow> t' = [])))"
    by blast
  also have "\<dots> \<longleftrightarrow> (\<exists>w e. (w, e) \<in> set (words r) \<and> (if e then suffix w s else sublist w s))"
    by (simp only: suffix_or_sublist)
  also have "\<dots> \<longleftrightarrow> (\<exists>(w, e) \<in> set (words r). if e then suffix w s else sublist w s)"
    by (simp only: Bex_def split_paired_Ex case_prod_conv)
  finally show ?thesis .
qed

lemma words_Str: "words (Str w) = [(w, False)]"
  by (induction w) auto

lemma words_re_svg: "words re_svg = [(''.svg'', True)]"
  by (simp add: re_svg_def words_Str)

lemma words_re_script: "words re_script = [(''.js'', True)]"
  by (simp add: re_script_def words_Str)

lemma words_re_style: "words re_style = [(''.scss'', True), (''.css'', True)]"
  by (simp add: re_style_def words_Str)

lemma words_re_image:
  "words re_image = [(''.png'', True), (''.jpeg'', True), (''.jpg'', True), (''.gif'', True),
                     (''.webp'', True)]"
  by (simp add: re_image_def words_Str)

lemma words_re_font:
  "words re_font = [(''.eot'', True), (''.svg'', True), (''.ttf'', True), (''.woff'', True),
                    (''.woff2'', True)]"
  by (simp add: re_font_def words_Str)

lemma words_re_typeface: "words re_typeface = [(''typeface'', False)]"
  by (simp add: re_typeface_def words_Str)

lemma words_re_exclude: "words re_exclude = [(''node_modules'', False), (''bower_components'', False)]"
  by (simp add: re_exclude_def words_Str)

lemma re_svg_test: "regex_test re_svg p \<longleftrightarrow> suffix ''.svg'' p"
  by (simp add: regex_test_words words_re_svg)

lemma re_script_test: "regex_test re_script p \<longleftrightarrow> suffix ''.js'' p"
  by (simp add: regex_test_words words_re_script)

lemma re_style_test: "regex_test re_style p \<longleftrightarrow> suffix ''.css'' p \<or> suffix ''.scss'' p"
  unfolding regex_test_words words_re_style by (simp add: disj_commute)

lemma re_image_test:
  "regex_test re_image p \<longleftrightarrow>
     suffix ''.png'' p \<or> suffix ''.jpg'' p \<or> suffix ''.jpeg'' p \<or> suffix ''.gif'' p \<or> suffix ''.webp'' p"
  unfolding regex_test_words words_re_image by (simp add: disj_ac)

lemma re_font_test:
  "regex_test re_font p \<longleftrightarrow>
     suffix ''.eot'' p \<or> suffix ''.svg'' p \<or> suffix ''.ttf'' p \<or> suffix ''.woff'' p \<or> suffix ''.woff2'' p"
  unfolding regex_test_words words_re_font by simp

lemma re_typeface_test: "regex_test re_typeface p \<longleftrightarrow> sublist ''typeface'' p"
  by (simp add: regex_test_words words_re_typeface)

lemma re_exclude_test:
  "regex_test re_exclude p \<longleftrightarrow> sublist ''node_modules'' p \<or> sublist ''bower_components'' p"
  unfolding regex_test_words words_re_exclude by simp

lemma image_rule_matches:
  "rule_matches (image_rule e) p \<longleftrightarrow>
     suffix ''.png'' p \<or> suffix ''.jpg'' p \<or> suffix ''.jpeg'' p \<or> suffix ''.gif'' p \<or> suffix ''.webp'' p"
  by (simp add: rule_matches_def image_rule_def re_image_test)

lemma style_rule_matches:
  "rule_matches (style_rule e m ips) p \<longleftrightarrow> suffix ''.css'' p \<or> suffix ''.scss'' p"
  by (simp add: rule_matches_def style_rule_def re_style_test)

lemma script_rule_matches:
  "rule_matches (script_rule e m) p \<longleftrightarrow>
     suffix ''.js'' p \<and> (get m ''exclude'' = JUndefined \<or> \<not> condition_matches (get m ''exclude'') p)"
  by (simp add: rule_matches_def script_rule_def re_script_test)

lemma font_rule_matches:
  "rule_matches (font_rule e) p \<longleftrightarrow>
     (suffix ''.eot'' p \<or> suffix ''.svg'' p \<or> suffix ''.ttf'' p \<or> suffix ''.woff'' p \<or> suffix ''.woff2'' p)
     \<and> sublist ''typeface'' p"
  by (simp add: rule_matches_def font_rule_def re_typeface_test re_font_test)

lemma svg_rule_matches:
  "rule_matches (svg_rule e) p \<longleftrightarrow> suffix ''.svg'' p \<and> \<not> sublist ''typeface'' p"
  by (simp add: rule_matches_def svg_rule_def re_typeface_test re_svg_test)

section \<open>Further properties of the merge\<close>

lemma find_append_first:
  "\<exists>r \<in> set xs. P r \<Longrightarrow> find P (xs @ ys) = find P xs"
  by (induction xs) auto

lemma get_absent: "k \<notin> set (Object_keys v) \<Longrightarrow> get v k = JUndefined"
  by (cases v) (auto split: option.splits dest!: map_of_SomeD intro: rev_image_eqI)

lemma mergeObject_scalar_target:
  assumes "\<not> isMergeableObject t"
  shows "mergeObject t (JObj b) = cloneUnlessOtherwiseSpecified (JObj b)"
proof -
  have g: "get t k = JUndefined" for k using assms by (cases t) auto
  have "cloneUnlessOtherwiseSpecified (JObj b) = mergeObject (JObj []) (JObj b)"
    by (simp add: cloneUnlessOtherwiseSpecified.simps deepmerge.simps emptyTarget_def)
  also have "\<dots> = mergeObject t (JObj b)"
    using assms by (simp add: mergeObject_unfold g)
  finally show ?thesis by simp
qed

lemma deepmerge_override_wins:
  assumes dk: "distinct_keys s"
      and arr: "\<not> (isArray t \<and> isArray s)"
      and obj: "\<not> ((\<exists>a. t = JObj a) \<and> (\<exists>b. s = JObj b))"
      and inst: "\<forall>c a. t \<noteq> JInstance c a"
      and ms: "isMergeableObject s"
  shows "deepmerge t s = s"
proof (cases "isArray s = isArray t")
  case False
  then show ?thesis using dk by (simp add: deepmerge.simps clone_id)
next
  case True
  with arr have ns: "\<not> isArray s" and nt: "\<not> isArray t" by auto
  with ms dk obtain b where b: "s = JObj b" by (cases s) auto
  with obj nt inst have "\<not> isMergeableObject t" by (cases t) auto
  from mergeObject_scalar_target[OF this] ns nt b dk show ?thesis
    by (simp add: deepmerge.simps clone_id)
qed

section \<open>Properties of the model on a store\<close>

text \<open>
  A push through an address that the caller holds changes the caller's array: the store
  tells a shared array from a copy.
\<close>

lemma h_push_shared:
  "h_push x [HArr xs] (HRef 0) a = ([HArr (xs @ [a])], Inr ())"
  by (simp add: h_push_def cell_def)

text \<open>Allocation and the writes to new cells keep the cells of an earlier store.\<close>

lemma newer_mono: "newer n v \<Longrightarrow> m \<le> n \<Longrightarrow> newer m v"
  by (auto simp: newer_def split: hval.splits)

lemma props_newer_mono: "props_newer n h v \<Longrightarrow> m \<le> n \<Longrightarrow> props_newer m h v"
  by (auto simp: props_newer_def list_all_iff split: option.splits hobj.splits intro: newer_mono)

lemma alloc_eq: "alloc h obj = (h @ [obj], HRef (length h))"
  by (simp add: alloc_def)

lemma prefix_update:
  assumes "prefix h0 h" and "length h0 \<le> a"
  shows "prefix h0 (h[a := x])"
proof -
  from assms(1) obtain zs where "h = h0 @ zs" by (auto simp: prefix_def)
  with assms(2) show ?thesis by (simp add: list_update_append)
qed

lemma prefix_nth: "prefix h0 h \<Longrightarrow> a < length h0 \<Longrightarrow> h ! a = h0 ! a"
  by (auto simp: prefix_def nth_append)

lemma cell_None_newer: "cell h v = None \<Longrightarrow> newer (length h) v"
  by (cases v) (auto simp: cell_def newer_def split: if_splits)

lemma build_prefix:
  "prefix h (fst (build h l))"
  "prefix h (fst (build_list h ls))"
  "prefix h (fst (build_props h kls))"
proof (induction h l and h ls and h kls rule: build_build_list_build_props.induct)
  case (2 h ls)
  then show ?case
    by (cases "build_list h ls") (auto simp: alloc_eq intro: prefix_order.trans)
next
  case (3 h kls)
  then show ?case
    by (cases "build_props h kls") (auto simp: alloc_eq intro: prefix_order.trans)
next
  case (4 h c kls)
  then show ?case
    by (cases "build_props h kls") (auto simp: alloc_eq intro: prefix_order.trans)
next
  case (6 h l ls)
  obtain h1 v where b: "build h l = (h1, v)" by (cases "build h l")
  obtain h2 vs where bl: "build_list h1 ls = (h2, vs)" by (cases "build_list h1 ls")
  from 6(1) b have "prefix h h1" by simp
  moreover from 6(2)[OF b[symmetric]] bl have "prefix h1 h2" by simp
  ultimately show ?case using b bl by (auto intro: prefix_order.trans)
next
  case (8 h k l kls)
  obtain h1 v where b: "build h l = (h1, v)" by (cases "build h l")
  obtain h2 kvs where bl: "build_props h1 kls = (h2, kvs)" by (cases "build_props h1 kls")
  from 8(1) b have "prefix h h1" by simp
  moreover from 8(2)[OF b[symmetric]] bl have "prefix h1 h2" by simp
  ultimately show ?case using b bl by (auto intro: prefix_order.trans)
qed simp_all

lemma h_put_prefix:
  assumes "prefix h0 h" and "newer (length h0) v"
  shows "prefix h0 (h_put h v k x)"
  using assms
  by (auto simp: h_put_def newer_def split: hval.splits option.splits hobj.splits
           intro: prefix_update)

lemma h_push_prefix:
  assumes "prefix h0 h" and "newer (length h0) v"
      and "\<And>f. prefix h0 (fst (h_call x f h v a))"
  shows "prefix h0 (fst (h_push x h v a))"
  using assms
  by (auto simp: h_push_def newer_def split: hval.splits option.splits hobj.splits
           intro: prefix_update)

lemma mapH_prefix:
  assumes "\<And>h x. x \<in> set xs \<Longrightarrow> prefix h (fst (f h x))"
  shows "prefix h (fst (mapH f h xs))"
  using assms
proof (induction xs arbitrary: h)
  case Nil
  show ?case by simp
next
  case (Cons x xs)
  obtain h1 r where f: "f h x = (h1, r)" by (cases "f h x")
  from Cons.prems[of x h] f have p1: "prefix h h1" by simp
  show ?case
  proof (cases r)
    case (Inl e)
    with f p1 show ?thesis by simp
  next
    case (Inr y)
    obtain h2 r2 where m: "mapH f h1 xs = (h2, r2)" by (cases "mapH f h1 xs")
    from Cons.IH[of h1] Cons.prems m have "prefix h1 h2" by simp
    with p1 have "prefix h h2" by (rule prefix_order.trans)
    with f Inr m show ?thesis by (cases r2) simp_all
  qed
qed

lemma forEachH_invariant:
  assumes "I h" and "\<And>h x. I h \<Longrightarrow> x \<in> set xs \<Longrightarrow> I (fst (f h x))"
  shows "I (fst (forEachH f h xs))"
  using assms
proof (induction xs arbitrary: h)
  case Nil
  then show ?case by simp
next
  case (Cons x xs)
  obtain h1 r where f: "f h x = (h1, r)" by (cases "f h x")
  from Cons.prems(2)[OF Cons.prems(1), of x] f have i1: "I h1" by simp
  show ?case
  proof (cases r)
    case (Inl e)
    with f i1 show ?thesis by simp
  next
    case (Inr u)
    from Cons.IH[OF i1] Cons.prems(2) have "I (fst (forEachH f h1 xs))" by simp
    with f Inr show ?thesis by simp
  qed
qed

text \<open>
  The merge is fresh at every depth: it keeps the store of its start, and what it returns
  is a new cell whose properties are new cells or no cells.
\<close>

lemma fresh_result_trans:
  assumes "prefix h h1" and "fresh_result h1 r"
  shows "fresh_result h r"
  using assms
  by (auto simp: fresh_result_def split: sum.splits
           intro: prefix_order.trans newer_mono props_newer_mono dest: prefix_length_le)

lemma list_all_update:
  "list_all P al \<Longrightarrow> P (k, v) \<Longrightarrow> list_all P (AList.update k v al)"
  by (induction al) auto

lemma assign_dest_inv:
  assumes inv: "dest_inv h d hk" and fr: "fresh_result hk r"
  shows "dest_inv h d (fst (assign (HRef d) key r))"
proof -
  obtain h' res where r: "r = (h', res)" by (cases r)
  from fr r have p: "prefix hk h'" by (simp add: fresh_result_def)
  from inv have ph: "prefix h hk" and d: "length h \<le> d" "d < length hk"
    and c: "\<exists>kvs. hk ! d = HObj kvs \<and> list_all (\<lambda>(k, w). newer (length h) w) kvs"
    by (auto simp: dest_inv_def)
  from c obtain kvs where kvs: "hk ! d = HObj kvs" "list_all (\<lambda>(k, w). newer (length h) w) kvs"
    by blast
  from p d have d': "d < length h'" using prefix_length_le by fastforce
  from p d kvs have c': "h' ! d = HObj kvs" by (simp add: prefix_nth)
  from ph p have ph': "prefix h h'" by (rule prefix_order.trans)
  show ?thesis
  proof (cases res)
    case (Inl e)
    with r ph' d d' c' kvs show ?thesis by (auto simp: assign_def dest_inv_def)
  next
    case (Inr w)
    with fr r have "newer (length hk) w" by (simp add: fresh_result_def)
    with ph have nw: "newer (length h) w" by (auto intro: newer_mono dest: prefix_length_le)
    have put: "h_put h' (HRef d) key w = h'[d := HObj (AList.update key w kvs)]"
      using d' c' by (simp add: h_put_def cell_def)
    from kvs(2) nw have "list_all (\<lambda>(k, w). newer (length h) w) (AList.update key w kvs)"
      by (intro list_all_update) simp_all
    with r Inr put ph' d d' show ?thesis
      by (auto simp: assign_def dest_inv_def intro: prefix_update)
  qed
qed

lemma deepmerge_fresh:
  "fresh_result h (h_cloneUnlessOtherwiseSpecified n h v) \<and>
   fresh_result h (h_defaultArrayMerge n h target source) \<and>
   fresh_result h (h_mergeObject n h target source) \<and>
   fresh_result h (h_deepmerge n h target source)"
proof (induction n arbitrary: h v target source)
  case 0
  show ?case by (simp add: fresh_result_def)
next
  case (Suc n)
  have ih_clone: "fresh_result h (h_cloneUnlessOtherwiseSpecified n h v)" for h v
    using Suc[of h v HNull HNull] by blast
  have ih_arr: "fresh_result h (h_defaultArrayMerge n h target source)" for h target source
    using Suc[of h HNull target source] by blast
  have ih_obj: "fresh_result h (h_mergeObject n h target source)" for h target source
    using Suc[of h HNull target source] by blast
  have ih_dm: "fresh_result h (h_deepmerge n h target source)" for h target source
    using Suc[of h HNull target source] by blast
  have clone: "fresh_result h (h_cloneUnlessOtherwiseSpecified (Suc n) h v)" for h v
  proof (cases "h_isMergeableObject h v")
    case True
    have "prefix h (h @ [if h_isArray h v then HArr [] else HObj []])" by simp
    from fresh_result_trans[OF this ih_dm] True show ?thesis
      by (simp add: alloc_eq)
  next
    case False
    then have "cell h v = None" by (simp add: h_isMergeableObject_def)
    with False show ?thesis
      by (simp add: fresh_result_def cell_None_newer props_newer_def)
  qed
  have arr: "fresh_result h (h_defaultArrayMerge (Suc n) h target source)" for h target source
  proof -
    define h1 where "h1 = h @ [HArr (h_elems h target @ h_elems h source)]"
    define m where "m = mapH (\<lambda>h element. h_cloneUnlessOtherwiseSpecified n h element) h1
                          (h_elems h1 (HRef (length h)))"
    have "prefix h1 (fst m)"
      unfolding m_def using ih_clone by (intro mapH_prefix) (simp add: fresh_result_def)
    moreover have "prefix h h1" by (simp add: h1_def)
    ultimately have p: "prefix h (fst m)" by (rule prefix_order.trans[rotated])
    have eq: "h_defaultArrayMerge (Suc n) h target source =
      (case m of (h2, Inl err) \<Rightarrow> (h2, Inl err)
               | (h2, Inr xs) \<Rightarrow> (h2 @ [HArr xs], Inr (HRef (length h2))))"
      by (simp add: alloc_eq h1_def m_def split: prod.splits sum.splits)
    obtain h2 r where m: "m = (h2, r)" by (cases m)
    with p have p2: "prefix h h2" by simp
    show ?thesis
    proof (cases r)
      case (Inl e)
      with eq m p2 show ?thesis by (simp add: fresh_result_def)
    next
      case (Inr xs)
      from p2 have "length h \<le> length h2" by (rule prefix_length_le)
      with eq m Inr p2 show ?thesis
        by (auto simp: fresh_result_def newer_def props_newer_def cell_def
                 intro: prefix_order.trans)
    qed
  qed
  have obj: "fresh_result h (h_mergeObject (Suc n) h target source)" for h target source
  proof -
    define d where "d = length h"
    define h0 where "h0 = h @ [HObj []]"
    define f1 where "f1 = (\<lambda>h key. assign (HRef d) key
                                  (h_cloneUnlessOtherwiseSpecified n h (h_get h target key)))"
    define f2 where "f2 = (\<lambda>h key. assign (HRef d) key
                                (if \<not> h_isMergeableObject h (h_get h source key) \<or>
                                    \<not> h_truthy (h_get h target key)
                                 then h_cloneUnlessOtherwiseSpecified n h (h_get h source key)
                                 else h_deepmerge n h (h_get h target key) (h_get h source key)))"
    define r1 where "r1 = (if h_isMergeableObject h0 target
                           then forEachH f1 h0 (h_keys h0 target) else (h0, Inr ()))"
    have i0: "dest_inv h d h0"
      by (simp add: dest_inv_def d_def h0_def)
    have s1: "dest_inv h d (fst (f1 hk key))" if "dest_inv h d hk" for hk key
      unfolding f1_def using that ih_clone by (intro assign_dest_inv) simp_all
    have s2: "dest_inv h d (fst (f2 hk key))" if "dest_inv h d hk" for hk key
    proof -
      have "fresh_result hk
              (if \<not> h_isMergeableObject hk (h_get hk source key) \<or>
                  \<not> h_truthy (h_get hk target key)
               then h_cloneUnlessOtherwiseSpecified n hk (h_get hk source key)
               else h_deepmerge n hk (h_get hk target key) (h_get hk source key))"
        by (simp add: ih_clone ih_dm)
      from assign_dest_inv[OF that this] show ?thesis unfolding f2_def .
    qed
    have i1: "dest_inv h d (fst r1)"
      unfolding r1_def using i0 s1
      by (auto intro: forEachH_invariant[where I = "dest_inv h d"])
    have eq: "h_mergeObject (Suc n) h target source =
      (case r1 of (h1, Inl err) \<Rightarrow> (h1, Inl err)
       | (h1, Inr u) \<Rightarrow>
           if source = HNull \<or> source = HUndefined then (h1, Inl TypeError)
           else (case forEachH f2 h1 (h_keys h1 source) of
                   (h2, Inl err) \<Rightarrow> (h2, Inl err)
                 | (h2, Inr u) \<Rightarrow> (h2, Inr (HRef d))))"
      by (simp only: h_mergeObject.simps
                     alloc_eq prod.case r1_def f1_def f2_def h0_def d_def)
    obtain h1 res1 where r1: "r1 = (h1, res1)" by (cases r1)
    with i1 have i1': "dest_inv h d h1" by simp
    have i2: "dest_inv h d (fst (forEachH f2 h1 (h_keys h1 source)))"
      using i1' s2 by (auto intro: forEachH_invariant[where I = "dest_inv h d"])
    obtain h2 res2 where r2: "forEachH f2 h1 (h_keys h1 source) = (h2, res2)"
      by (cases "forEachH f2 h1 (h_keys h1 source)")
    with i2 have i2': "dest_inv h d h2" by simp
    have fin: "fresh_result h (h2, Inr (HRef d))"
    proof -
      from i2' have p: "prefix h h2" and d: "length h \<le> d" "d < length h2"
        and c: "\<exists>kvs. h2 ! d = HObj kvs \<and> list_all (\<lambda>(k, w). newer (length h) w) kvs"
        by (auto simp: dest_inv_def)
      from d(1) have n: "newer (length h) (HRef d)" by (simp add: newer_def)
      from c d(2) have "props_newer (length h) h2 (HRef d)"
        by (auto simp: props_newer_def cell_def)
      with p n show ?thesis by (simp add: fresh_result_def)
    qed
    have e1: "fresh_result h (h1, Inl err)" for err
      using i1' by (simp add: fresh_result_def dest_inv_def)
    have e2: "fresh_result h (h2, Inl err)" for err
      using i2' by (simp add: fresh_result_def dest_inv_def)
    show ?thesis
      unfolding eq r1 using fin e1 e2 r2
      by (cases res1; cases res2) simp_all
  qed
  have dm: "fresh_result h (h_deepmerge (Suc n) h target source)" for h target source
    using ih_clone ih_arr ih_obj by simp
  from clone arr obj dm show ?case by blast
qed

text \<open>The statements of lines 75 to 181 keep an earlier store.\<close>

lemma get_newer: "props_newer n h v \<Longrightarrow> newer n (h_get h v k)"
proof (cases "cell h v")
  case None
  then show ?thesis by (simp add: h_get_def newer_def)
next
  case (Some obj)
  assume pn: "props_newer n h v"
  show ?thesis
  proof (cases "map_of (own obj) k")
    case None
    with Some show ?thesis by (simp add: h_get_def newer_def)
  next
    case (Some w)
    then have "(k, w) \<in> set (own obj)" by (rule map_of_SomeD)
    moreover from pn \<open>cell h v = Some obj\<close>
    have "list_all (\<lambda>(k, w). newer n w) (own obj)" by (simp add: props_newer_def)
    ultimately have "newer n w" by (auto simp: list_all_iff)
    with Some \<open>cell h v = Some obj\<close> show ?thesis by (simp add: h_get_def)
  qed
qed

lemma props_newer_put:
  assumes "props_newer n h v" and "newer n w"
  shows "props_newer n (h_put h v k w) v"
proof (cases v)
  case (HRef a)
  show ?thesis
  proof (cases "cell h v")
    case None
    with HRef assms show ?thesis by (simp add: h_put_def)
  next
    case (Some obj)
    with HRef have a: "a < length h" "h ! a = obj" by (auto simp: cell_def split: if_splits)
    from assms(1) Some have l: "list_all (\<lambda>(k, w). newer n w) (own obj)"
      by (simp add: props_newer_def)
    from l assms(2) have l': "list_all (\<lambda>(k, w). newer n w) (AList.update k w (own obj))"
      by (intro list_all_update) simp_all
    from HRef Some a l l' show ?thesis
      by (cases obj) (simp_all add: h_put_def props_newer_def cell_def)
  qed
qed (simp_all add: props_newer_def cell_def)

lemma step_prod:
  assumes "prefix h0 (fst p)"
      and "\<And>h a. prefix h0 h \<Longrightarrow> prefix h0 (fst (g h a))"
  shows "prefix h0 (fst (case p of (h, a) \<Rightarrow> g h a))"
  using assms by (cases p) simp

lemma step_sum:
  assumes "\<And>err. prefix h0 (fst (f err))"
      and "\<And>a. prefix h0 (fst (g a))"
  shows "prefix h0 (fst (case s of Inl err \<Rightarrow> f err | Inr a \<Rightarrow> g a))"
  using assms by (cases s) simp_all

lemma step_pair: "prefix h0 h \<Longrightarrow> prefix h0 (fst (h, r))"
  by simp

lemma step_build: "prefix h0 h \<Longrightarrow> prefix h0 (fst (build h l))"
  using build_prefix(1)[of h l] by (rule prefix_order.trans[rotated])

lemma h_style_rule_prefix:
  assumes p: "prefix h0 h"
      and ext: "\<And>hk v. prefix h0 hk \<Longrightarrow> prefix h0 (fst (h_extract x hk v))"
  shows "prefix h0 (fst (h_style_rule e x h options))"
  unfolding h_style_rule_def
  by (intro step_sum step_prod step_pair step_build ext p | assumption)+

lemma h_returned_prefix:
  assumes p: "prefix h0 h"
      and e1: "\<And>hk v. prefix h0 hk \<Longrightarrow> prefix h0 (fst (h_ExtractTextPlugin x hk v))"
      and e2: "\<And>hk v. prefix h0 hk \<Longrightarrow> prefix h0 (fst (h_CopyWebpackPlugin x hk v))"
      and e3: "\<And>hk v. prefix h0 hk \<Longrightarrow> prefix h0 (fst (h_extract x hk v))"
  shows "prefix h0 (fst (h_returned e x h dir options))"
  unfolding h_returned_def Let_def
  by (intro step_sum step_prod step_pair step_build h_style_rule_prefix e1 e2 e3 p | assumption)+

section \<open>The claims\<close>

text \<open>
  C1, as stated, fails: the default of \<^verbatim>\<open>outputPath\<close> is computed from the directory as
  the caller gave it, not from its canonical path. For the spec's own example, the call
  \<^verbatim>\<open>compose("/proj", {html: {template: "t.html"}})\<close> on a directory that resolves to
  \<^verbatim>\<open>/real/proj\<close>, the returned \<^verbatim>\<open>output.path\<close> is \<^verbatim>\<open>/proj/dist\<close> and not
  \<^verbatim>\<open>/real/proj/dist\<close>.
\<close>

theorem createWebpack_outputPath_canonical_counterexample:
  "realpathSync example_env ''/proj'' = Inr ''/real/proj'' \<and>
   ''outputPath'' \<notin> set (Object_keys (JObj [(''html'', JObj [(''template'', JStr ''t.html'')])])) \<and>
   \<not> isl (createWebpack example_env ''/proj'' (JObj [(''html'', JObj [(''template'', JStr ''t.html'')])])) \<and>
   path (output (projr (createWebpack example_env ''/proj''
                          (JObj [(''html'', JObj [(''template'', JStr ''t.html'')])])))) = JStr ''/proj/dist'' \<and>
   path_resolve (cwd example_env) [''/real/proj'', ''dist''] = ''/real/proj/dist'' \<and>
   JStr ''/proj/dist'' \<noteq> JStr ''/real/proj/dist''"
  by code_simp

text \<open>
  C1, amended: for every base directory and every overrides object that does not set
  \<^verbatim>\<open>outputPath\<close>, a returned configuration has \<^verbatim>\<open>output.path\<close> equal to
  \<^verbatim>\<open>path.resolve(dir, 'dist')\<close>: the base directory as given, made absolute against the
  working directory and normalised, joined with \<^verbatim>\<open>dist\<close>; symbolic links are not
  resolved in it.
\<close>

theorem createWebpack_outputPath_default:
  assumes "createWebpack e dir options = Inr cfg"
      and "''outputPath'' \<notin> set (Object_keys options)"
  shows "path (output cfg) = JStr (path_resolve (cwd e) [dir, ''dist''])"
proof -
  from createWebpack_Inr[OF assms(1)] obtain realDir m where
    m: "mergedOptions e dir realDir options = Inr m" and na: "\<not> isArray options"
    and p: "path (output cfg) = get m ''outputPath''"
    by blast
  show ?thesis
    unfolding p merged_get[OF m na] using assms(2) by (simp add: defaults_get clone_scalar)
qed

theorem createWebpack_outputPath_default_witness:
  "createWebpack example_env ''/proj'' (JObj [(''html'', JObj [(''template'', JStr ''t.html'')])])
     = Inr (projr (createWebpack example_env ''/proj'' (JObj [(''html'', JObj [(''template'', JStr ''t.html'')])]))) \<and>
   ''outputPath'' \<notin> set (Object_keys (JObj [(''html'', JObj [(''template'', JStr ''t.html'')])])) \<and>
   path (output (projr (createWebpack example_env ''/proj''
                          (JObj [(''html'', JObj [(''template'', JStr ''t.html'')])]))))
     = JStr (path_resolve (cwd example_env) [''/proj'', ''dist''])"
proof -
  have r: "createWebpack example_env ''/proj'' (JObj [(''html'', JObj [(''template'', JStr ''t.html'')])])
     = Inr (projr (createWebpack example_env ''/proj'' (JObj [(''html'', JObj [(''template'', JStr ''t.html'')])])))"
    by code_simp
  have k: "''outputPath'' \<notin> set (Object_keys (JObj [(''html'', JObj [(''template'', JStr ''t.html'')])]))"
    by simp
  from r k createWebpack_outputPath_default[OF r k] show ?thesis by blast
qed

text \<open>
  C2: whenever the merged \<^verbatim>\<open>sourceMap\<close> field is \<^verbatim>\<open>false\<close>, the \<^verbatim>\<open>devtool\<close> field of
  the returned configuration is \<^verbatim>\<open>false\<close>, whatever \<^verbatim>\<open>devtool\<close> the overrides gave.
  The witness is the spec's example \<^verbatim>\<open>{sourceMap: false, devtool: "source-map"}\<close>.
\<close>

theorem createWebpack_devtool_forced:
  assumes "createWebpack e dir options = Inr cfg"
      and "realpathSync e dir = Inr realDir"
      and "mergedOptions e dir realDir options = Inr merged"
      and "get merged ''sourceMap'' = JBool False"
  shows "devtool cfg = JBool False"
proof -
  from createWebpack_Inr[OF assms(1)] obtain realDir' m where
    rd: "realpathSync e dir = Inr realDir'"
    and m': "mergedOptions e dir realDir' options = Inr m"
    and p: "devtool cfg = (if truthy (get m ''sourceMap'') then get m ''devtool'' else JBool False)"
    by blast
  from rd assms(2) have "realDir' = realDir" by simp
  with m' assms(3) have "m = merged" by simp
  with p assms(4) show ?thesis by simp
qed

theorem createWebpack_devtool_forced_witness:
  "createWebpack example_env ''/proj'' (JObj [(''sourceMap'', JBool False), (''devtool'', JStr ''source-map'')])
     = Inr (projr (createWebpack example_env ''/proj''
                     (JObj [(''sourceMap'', JBool False), (''devtool'', JStr ''source-map'')]))) \<and>
   realpathSync example_env ''/proj'' = Inr ''/real/proj'' \<and>
   mergedOptions example_env ''/proj'' ''/real/proj''
       (JObj [(''sourceMap'', JBool False), (''devtool'', JStr ''source-map'')])
     = Inr (projr (mergedOptions example_env ''/proj'' ''/real/proj''
                     (JObj [(''sourceMap'', JBool False), (''devtool'', JStr ''source-map'')]))) \<and>
   get (projr (mergedOptions example_env ''/proj'' ''/real/proj''
                 (JObj [(''sourceMap'', JBool False), (''devtool'', JStr ''source-map'')]))) ''sourceMap''
     = JBool False \<and>
   devtool (projr (createWebpack example_env ''/proj''
                     (JObj [(''sourceMap'', JBool False), (''devtool'', JStr ''source-map'')])))
     = JBool False"
proof -
  let ?o = "JObj [(''sourceMap'', JBool False), (''devtool'', JStr ''source-map'')]"
  have r: "createWebpack example_env ''/proj'' ?o = Inr (projr (createWebpack example_env ''/proj'' ?o))"
    by code_simp
  have d: "realpathSync example_env ''/proj'' = Inr ''/real/proj''"
    by (simp add: example_env_def)
  have m: "mergedOptions example_env ''/proj'' ''/real/proj'' ?o
             = Inr (projr (mergedOptions example_env ''/proj'' ''/real/proj'' ?o))"
    by code_simp
  have s: "get (projr (mergedOptions example_env ''/proj'' ''/real/proj'' ?o)) ''sourceMap'' = JBool False"
    by code_simp
  from r d m s createWebpack_devtool_forced[OF r d m s] show ?thesis by blast
qed

text \<open>
  C3: for overrides whose \<^verbatim>\<open>rules\<close> are absent or an array, \<^verbatim>\<open>module.rules\<close> of a
  returned configuration is the given rules in their order, followed by the image rule
  (png, jpg, jpeg, gif, webp), the stylesheet rule (css, scss), the script rule (js, minus
  what the merged \<^verbatim>\<open>exclude\<close> condition matches), the font rule and the bare-svg rule;
  hence, whatever decides that a rule applies to a file, the first rule of the list that
  applies is the first given rule that applies, as soon as one of them does.
\<close>

theorem createWebpack_rules:
  assumes "createWebpack e dir options = Inr cfg"
      and "realpathSync e dir = Inr realDir"
      and "mergedOptions e dir realDir options = Inr merged"
      and "''rules'' \<notin> set (Object_keys options) \<and> given = [] \<or>
           get options ''rules'' = JArr given \<and> list_all distinct_keys given"
  shows "\<exists>includePaths.
           spread (get merged ''includePaths'') = Inr includePaths \<and>
           rules (module cfg) =
             given @ [image_rule e, style_rule e merged includePaths, script_rule e merged,
                      font_rule e, svg_rule e] \<and>
           (\<forall>p. rule_matches (image_rule e) p \<longleftrightarrow>
                  suffix ''.png'' p \<or> suffix ''.jpg'' p \<or> suffix ''.jpeg'' p \<or>
                  suffix ''.gif'' p \<or> suffix ''.webp'' p) \<and>
           (\<forall>p. rule_matches (style_rule e merged includePaths) p \<longleftrightarrow>
                  suffix ''.css'' p \<or> suffix ''.scss'' p) \<and>
           (\<forall>p. rule_matches (script_rule e merged) p \<longleftrightarrow>
                  suffix ''.js'' p \<and>
                  (get merged ''exclude'' = JUndefined \<or>
                   \<not> condition_matches (get merged ''exclude'') p)) \<and>
           (\<forall>p. rule_matches (font_rule e) p \<longleftrightarrow>
                  (suffix ''.eot'' p \<or> suffix ''.svg'' p \<or> suffix ''.ttf'' p \<or>
                   suffix ''.woff'' p \<or> suffix ''.woff2'' p) \<and> sublist ''typeface'' p) \<and>
           (\<forall>p. rule_matches (svg_rule e) p \<longleftrightarrow>
                  suffix ''.svg'' p \<and> \<not> sublist ''typeface'' p) \<and>
           (\<forall>applies. (\<exists>r \<in> set given. applies r) \<longrightarrow>
                  find applies (rules (module cfg)) = find applies given)"
proof -
  from createWebpack_Inr[OF assms(1)] obtain realDir' m rs ips where
    rd: "realpathSync e dir = Inr realDir'"
    and m': "mergedOptions e dir realDir' options = Inr m"
    and na: "\<not> isArray options"
    and rs': "spread (get m ''rules'') = Inr rs"
    and ips': "spread (get m ''includePaths'') = Inr ips"
    and r': "rules (module cfg) = rs @ [image_rule e, style_rule e m ips, script_rule e m,
                                       font_rule e, svg_rule e]"
    by blast
  from rd assms(2) have "realDir' = realDir" by simp
  with m' assms(3) have mm: "m = merged" by simp
  note rs = rs'[unfolded mm] and ips = ips'[unfolded mm] and r = r'[unfolded mm]
  from merged_array_field[OF assms(3) na defaults_get(4) assms(4)] rs have g: "rs = given" by simp
  have first: "\<forall>applies. (\<exists>r \<in> set given. applies r) \<longrightarrow>
                  find applies (rules (module cfg)) = find applies given"
    unfolding r g by (simp add: find_append_first)
  show ?thesis
    using ips r[unfolded g] first
    by (intro exI[of _ ips] conjI allI image_rule_matches style_rule_matches
              script_rule_matches font_rule_matches svg_rule_matches) blast+
qed

theorem createWebpack_rules_witness:
  "createWebpack example_env ''/proj''
       (JObj [(''rules'', JArr [JObj [(''test'', JRegExp re_svg), (''use'', JStr ''raw-loader'')]])])
     = Inr (projr (createWebpack example_env ''/proj''
         (JObj [(''rules'', JArr [JObj [(''test'', JRegExp re_svg), (''use'', JStr ''raw-loader'')]])]))) \<and>
   hd (rules (module (projr (createWebpack example_env ''/proj''
         (JObj [(''rules'', JArr [JObj [(''test'', JRegExp re_svg), (''use'', JStr ''raw-loader'')]])])))))
     = JObj [(''test'', JRegExp re_svg), (''use'', JStr ''raw-loader'')] \<and>
   length (rules (module (projr (createWebpack example_env ''/proj''
         (JObj [(''rules'', JArr [JObj [(''test'', JRegExp re_svg), (''use'', JStr ''raw-loader'')]])]))))) = 6 \<and>
   rule_matches (svg_rule example_env) ''assets/icon.svg'' \<and>
   find (\<lambda>r. rule_matches r ''assets/icon.svg'')
        (rules (module (projr (createWebpack example_env ''/proj''
         (JObj [(''rules'', JArr [JObj [(''test'', JRegExp re_svg), (''use'', JStr ''raw-loader'')]])])))))
     = Some (JObj [(''test'', JRegExp re_svg), (''use'', JStr ''raw-loader'')])"
proof -
  define r where "r = JObj [(''test'', JRegExp re_svg), (''use'', JStr ''raw-loader'')]"
  define ov where "ov = JObj [(''rules'', JArr [r])]"
  define m where "m = projr (mergedOptions example_env ''/proj'' ''/real/proj'' ov)"
  define cfg where "cfg = projr (createWebpack example_env ''/proj'' ov)"
  have c: "createWebpack example_env ''/proj'' ov = Inr cfg"
    unfolding cfg_def ov_def r_def by code_simp
  have d: "realpathSync example_env ''/proj'' = Inr ''/real/proj''"
    by (simp add: example_env_def)
  have mo: "mergedOptions example_env ''/proj'' ''/real/proj'' ov = Inr m"
    unfolding m_def ov_def r_def by code_simp
  have dk: "distinct_keys r"
    unfolding r_def by simp
  have g: "''rules'' \<notin> set (Object_keys ov) \<and> [r] = [] \<or>
           get ov ''rules'' = JArr [r] \<and> list_all distinct_keys [r]"
    using dk unfolding ov_def by simp
  have sfx: "suffix ''.svg'' ''assets/icon.svg''"
    by (simp add: suffix_def)
  have nsub: "\<not> sublist ''typeface'' ''assets/icon.svg''"
    by (simp add: sublist_code)
  have t: "get r ''test'' = JRegExp re_svg" and i: "get r ''include'' = JUndefined"
    and x: "get r ''exclude'' = JUndefined"
    unfolding r_def by simp_all
  have a0: "(get r ''test'' = JUndefined \<or> condition_matches (get r ''test'') ''assets/icon.svg'') \<and>
      (get r ''include'' = JUndefined \<or> condition_matches (get r ''include'') ''assets/icon.svg'') \<and>
      (get r ''exclude'' = JUndefined \<or> \<not> condition_matches (get r ''exclude'') ''assets/icon.svg'')"
    unfolding t i x using sfx by (simp add: re_svg_test)
  have a: "rule_matches r ''assets/icon.svg''"
    unfolding rule_matches_def by (rule a0)
  have b: "rule_matches (svg_rule example_env) ''assets/icon.svg''"
    using sfx nsub by (simp only: svg_rule_matches simp_thms)
  obtain ips where
    rs: "rules (module cfg) =
           [r] @ [image_rule example_env, style_rule example_env m ips, script_rule example_env m,
                   font_rule example_env, svg_rule example_env]"
    and f: "\<forall>applies. (\<exists>x \<in> set [r]. applies x) \<longrightarrow> find applies (rules (module cfg)) = find applies [r]"
  proof -
    from createWebpack_rules[OF c d mo g] show ?thesis
      by (elim exE conjE) (rule that, assumption+)
  qed
  from f[rule_format, of "\<lambda>x. rule_matches x ''assets/icon.svg''"] a
  have "find (\<lambda>x. rule_matches x ''assets/icon.svg'') (rules (module cfg))
      = find (\<lambda>x. rule_matches x ''assets/icon.svg'') [r]"
    by simp
  with a have fr: "find (\<lambda>x. rule_matches x ''assets/icon.svg'') (rules (module cfg)) = Some r"
    by simp
  have h: "hd (rules (module cfg)) = r" and l: "length (rules (module cfg)) = 6"
    unfolding rs by simp_all
  from c h l b fr show ?thesis
    unfolding cfg_def ov_def r_def by (intro conjI)
qed

text \<open>
  C4, as stated, fails: the plugin is appended when \<^verbatim>\<open>html.template\<close> is truthy, not
  when it is non-null. With the empty string as template, which is not \<^verbatim>\<open>null\<close>, the
  list ends with the asset-copy plugin.
\<close>

theorem createWebpack_plugins_empty_template_counterexample:
  "\<not> isl (createWebpack example_env ''/proj'' (JObj [(''html'', JObj [(''template'', JStr '''')])])) \<and>
   get (get (projr (mergedOptions example_env ''/proj'' ''/real/proj''
                      (JObj [(''html'', JObj [(''template'', JStr '''')])]))) ''html'') ''template''
     = JStr '''' \<and>
   JStr '''' \<noteq> JNull \<and>
   plugins (projr (createWebpack example_env ''/proj'' (JObj [(''html'', JObj [(''template'', JStr '''')])])))
     = [ExtractTextPlugin example_env (JStr ''[name].css''), CopyWebpackPlugin example_env (JArr [])] \<and>
   last (plugins (projr (createWebpack example_env ''/proj''
                           (JObj [(''html'', JObj [(''template'', JStr '''')])]))))
     \<noteq> HtmlWebpackPlugin example_env (JStr '''')"
  by code_simp

text \<open>
  C4, amended: the plugins of a returned configuration are the stylesheet-extraction
  plugin, the asset-copy plugin made from the merged \<^verbatim>\<open>copy\<close> field, the entries of the
  merged \<^verbatim>\<open>plugins\<close> field in their order and, if and only if the merged
  \<^verbatim>\<open>html.template\<close> is truthy (neither \<^verbatim>\<open>null\<close>, \<^verbatim>\<open>undefined\<close>, \<^verbatim>\<open>false\<close>,
  \<^verbatim>\<open>0\<close> nor the empty string), one HTML-emission plugin made from that template, last.
  When the overrides give an array of plugins there is one entry for each of them, in the
  order given, and the entry of a plugin that is plain data is equal to it; when they give
  none there is no entry. What the entry of a plugin that is an instance of a class is,
  the statement leaves open: the merge copies it, see \<open>clone_instance\<close>.
\<close>

theorem createWebpack_plugins:
  assumes "createWebpack e dir options = Inr cfg"
      and "realpathSync e dir = Inr realDir"
      and "mergedOptions e dir realDir options = Inr merged"
  shows "\<exists>entries.
           spread (get merged ''plugins'') = Inr entries \<and>
           plugins cfg =
             [ExtractTextPlugin e (JStr ''[name].css''), CopyWebpackPlugin e (get merged ''copy'')]
             @ entries
             @ (if truthy (get (get merged ''html'') ''template'')
                then [HtmlWebpackPlugin e (get (get merged ''html'') ''template'')] else []) \<and>
           (''plugins'' \<notin> set (Object_keys options) \<longrightarrow> entries = []) \<and>
           (\<forall>given. get options ''plugins'' = JArr given \<longrightarrow>
              length entries = length given \<and>
              (\<forall>i < length given. distinct_keys (given ! i) \<longrightarrow> entries ! i = given ! i))"
proof -
  from createWebpack_Inr[OF assms(1)] obtain realDir' m ps where
    rd: "realpathSync e dir = Inr realDir'"
    and m': "mergedOptions e dir realDir' options = Inr m"
    and na: "\<not> isArray options" and ps': "spread (get m ''plugins'') = Inr ps"
    and p': "plugins cfg =
           [ExtractTextPlugin e (JStr ''[name].css''), CopyWebpackPlugin e (get m ''copy'')]
           @ ps
           @ (if truthy (get (get m ''html'') ''template'')
              then [HtmlWebpackPlugin e (get (get m ''html'') ''template'')] else [])"
    by blast
  from rd assms(2) have "realDir' = realDir" by simp
  with m' assms(3) have mm: "m = merged" by simp
  note ps = ps'[unfolded mm] and p = p'[unfolded mm]
  have none: "ps = []" if "''plugins'' \<notin> set (Object_keys options)"
    using merged_array_absent[OF assms(3) na defaults_get(3) that] ps by simp
  have some: "length ps = length given \<and>
              (\<forall>i < length given. distinct_keys (given ! i) \<longrightarrow> ps ! i = given ! i)"
    if "get options ''plugins'' = JArr given" for given
  proof -
    from merged_array_copy[OF assms(3) na defaults_get(3) that] ps
    have "ps = map cloneUnlessOtherwiseSpecified given" by simp
    then show ?thesis by (simp add: clone_id)
  qed
  from ps p none some show ?thesis by blast
qed

theorem createWebpack_plugins_witness:
  "createWebpack example_env ''/proj''
       (JObj [(''html'', JObj [(''template'', JStr ''t.html'')]),
              (''plugins'', JArr [JInstance ''DefinePlugin'' [(''definitions'', JObj [(''A'', JStr ''1'')])],
                                  JObj [(''banner'', JStr ''hello'')]])])
     = Inr (projr (createWebpack example_env ''/proj''
       (JObj [(''html'', JObj [(''template'', JStr ''t.html'')]),
              (''plugins'', JArr [JInstance ''DefinePlugin'' [(''definitions'', JObj [(''A'', JStr ''1'')])],
                                  JObj [(''banner'', JStr ''hello'')]])]))) \<and>
   length (plugins (projr (createWebpack example_env ''/proj''
       (JObj [(''html'', JObj [(''template'', JStr ''t.html'')]),
              (''plugins'', JArr [JInstance ''DefinePlugin'' [(''definitions'', JObj [(''A'', JStr ''1'')])],
                                  JObj [(''banner'', JStr ''hello'')]])])))) = 5 \<and>
   take 2 (plugins (projr (createWebpack example_env ''/proj''
       (JObj [(''html'', JObj [(''template'', JStr ''t.html'')]),
              (''plugins'', JArr [JInstance ''DefinePlugin'' [(''definitions'', JObj [(''A'', JStr ''1'')])],
                                  JObj [(''banner'', JStr ''hello'')]])]))))
     = [ExtractTextPlugin example_env (JStr ''[name].css''), CopyWebpackPlugin example_env (JArr [])] \<and>
   plugins (projr (createWebpack example_env ''/proj''
       (JObj [(''html'', JObj [(''template'', JStr ''t.html'')]),
              (''plugins'', JArr [JInstance ''DefinePlugin'' [(''definitions'', JObj [(''A'', JStr ''1'')])],
                                  JObj [(''banner'', JStr ''hello'')]])]))) ! 3
     = JObj [(''banner'', JStr ''hello'')] \<and>
   last (plugins (projr (createWebpack example_env ''/proj''
       (JObj [(''html'', JObj [(''template'', JStr ''t.html'')]),
              (''plugins'', JArr [JInstance ''DefinePlugin'' [(''definitions'', JObj [(''A'', JStr ''1'')])],
                                  JObj [(''banner'', JStr ''hello'')]])]))))
     = HtmlWebpackPlugin example_env (JStr ''t.html'')"
proof -
  define q where "q = JInstance ''DefinePlugin'' [(''definitions'', JObj [(''A'', JStr ''1'')])]"
  define p where "p = JObj [(''banner'', JStr ''hello'')]"
  define ov where "ov = JObj [(''html'', JObj [(''template'', JStr ''t.html'')]),
                              (''plugins'', JArr [q, p])]"
  define m where "m = projr (mergedOptions example_env ''/proj'' ''/real/proj'' ov)"
  define cfg where "cfg = projr (createWebpack example_env ''/proj'' ov)"
  have r: "createWebpack example_env ''/proj'' ov = Inr cfg"
    unfolding cfg_def ov_def q_def p_def by code_simp
  have d: "realpathSync example_env ''/proj'' = Inr ''/real/proj''"
    by (simp add: example_env_def)
  have mo: "mergedOptions example_env ''/proj'' ''/real/proj'' ov = Inr m"
    unfolding m_def ov_def q_def p_def by code_simp
  have c: "get m ''copy'' = JArr []"
    unfolding m_def ov_def q_def p_def by code_simp
  have t: "get (get m ''html'') ''template'' = JStr ''t.html''"
    unfolding m_def ov_def q_def p_def by code_simp
  have g: "get ov ''plugins'' = JArr [q, p]"
    unfolding ov_def by simp
  have dp: "distinct_keys ([q, p] ! 1)"
    unfolding p_def by simp
  obtain entries where
    pl: "plugins cfg =
           [ExtractTextPlugin example_env (JStr ''[name].css''),
            CopyWebpackPlugin example_env (get m ''copy'')]
           @ entries
           @ (if truthy (get (get m ''html'') ''template'')
              then [HtmlWebpackPlugin example_env (get (get m ''html'') ''template'')] else [])"
    and gv: "\<forall>given. get ov ''plugins'' = JArr given \<longrightarrow>
              length entries = length given \<and>
              (\<forall>i < length given. distinct_keys (given ! i) \<longrightarrow> entries ! i = given ! i)"
  proof -
    from createWebpack_plugins[OF r d mo] show ?thesis
      by (elim exE conjE) (rule that, assumption+)
  qed
  from gv[rule_format, OF g] have len: "length entries = 2"
    and eq: "\<forall>i < length [q, p]. distinct_keys ([q, p] ! i) \<longrightarrow> entries ! i = [q, p] ! i"
    by simp_all
  from eq[rule_format, of 1] dp have e1: "entries ! 1 = p" by simp
  have pl': "plugins cfg =
           [ExtractTextPlugin example_env (JStr ''[name].css''), CopyWebpackPlugin example_env (JArr [])]
           @ entries @ [HtmlWebpackPlugin example_env (JStr ''t.html'')]"
    unfolding pl c t by simp
  have l: "length (plugins cfg) = 5" unfolding pl' using len by simp
  have tk: "take 2 (plugins cfg) =
      [ExtractTextPlugin example_env (JStr ''[name].css''), CopyWebpackPlugin example_env (JArr [])]"
    unfolding pl' by simp
  have n3: "plugins cfg ! 3 = p"
    unfolding pl' using len e1 by (simp add: nth_append nth_Cons' numeral_3_eq_3)
  have la: "last (plugins cfg) = HtmlWebpackPlugin example_env (JStr ''t.html'')"
    unfolding pl' by simp
  from r l tk n3 la show ?thesis
    unfolding cfg_def ov_def q_def p_def by (intro conjI)
qed

text \<open>
  C5, as stated, fails: \<^verbatim>\<open>context\<close> is one of the merged fields, and an override of it
  wins over the canonical path.
\<close>

theorem createWebpack_context_override_counterexample:
  "realpathSync example_env ''/proj'' = Inr ''/real/proj'' \<and>
   \<not> isl (createWebpack example_env ''/proj'' (JObj [(''context'', JStr ''/elsewhere'')])) \<and>
   context (projr (createWebpack example_env ''/proj'' (JObj [(''context'', JStr ''/elsewhere'')])))
     = JStr ''/elsewhere'' \<and>
   JStr ''/elsewhere'' \<noteq> JStr ''/real/proj''"
  by code_simp

text \<open>
  C5, amended: for every base directory and every overrides object that does not set
  \<^verbatim>\<open>context\<close>, the \<^verbatim>\<open>context\<close> field of a returned configuration is the canonical
  path that \<^verbatim>\<open>fs.realpathSync\<close> gave for the base directory.
\<close>

theorem createWebpack_context_default:
  assumes "createWebpack e dir options = Inr cfg"
      and "realpathSync e dir = Inr realDir"
      and "''context'' \<notin> set (Object_keys options)"
  shows "context cfg = JStr realDir"
proof -
  from createWebpack_Inr[OF assms(1)] obtain realDir' m where
    rd: "realpathSync e dir = Inr realDir'"
    and m': "mergedOptions e dir realDir' options = Inr m" and na: "\<not> isArray options"
    and p: "context cfg = get m ''context''"
    by blast
  from rd assms(2) have "realDir' = realDir" by simp
  with m' have m: "mergedOptions e dir realDir options = Inr m" by simp
  show ?thesis
    unfolding p merged_get[OF m na] using assms(3) by (simp add: defaults_get clone_scalar)
qed

theorem createWebpack_context_default_witness:
  "createWebpack example_env ''/proj'' (JObj [(''mode'', JStr ''production'')])
     = Inr (projr (createWebpack example_env ''/proj'' (JObj [(''mode'', JStr ''production'')]))) \<and>
   realpathSync example_env ''/proj'' = Inr ''/real/proj'' \<and>
   ''context'' \<notin> set (Object_keys (JObj [(''mode'', JStr ''production'')])) \<and>
   context (projr (createWebpack example_env ''/proj'' (JObj [(''mode'', JStr ''production'')])))
     = JStr ''/real/proj''"
proof -
  have r: "createWebpack example_env ''/proj'' (JObj [(''mode'', JStr ''production'')])
     = Inr (projr (createWebpack example_env ''/proj'' (JObj [(''mode'', JStr ''production'')])))"
    by code_simp
  have d: "realpathSync example_env ''/proj'' = Inr ''/real/proj''"
    by (simp add: example_env_def)
  have k: "''context'' \<notin> set (Object_keys (JObj [(''mode'', JStr ''production'')]))"
    by simp
  from r d k createWebpack_context_default[OF r d k] show ?thesis by blast
qed

text \<open>
  C6: no path matches both the font rule and the bare-svg rule; a path that ends in
  \<^verbatim>\<open>.svg\<close> matches the font rule alone when it contains the marker \<^verbatim>\<open>typeface\<close> and
  the bare-svg rule alone when it does not. So \<^verbatim>\<open>fonts/Icon.svg\<close> below any directory
  whose path contains the marker goes through the font rule, and \<^verbatim>\<open>assets/icon.svg\<close>
  through the bare-svg rule.
\<close>

theorem svg_disambiguation:
  "(\<forall>p. \<not> (rule_matches (font_rule e) p \<and> rule_matches (svg_rule e) p)) \<and>
   (\<forall>p. suffix ''.svg'' p \<and> sublist ''typeface'' p \<longrightarrow>
          rule_matches (font_rule e) p \<and> \<not> rule_matches (svg_rule e) p) \<and>
   (\<forall>p. suffix ''.svg'' p \<and> \<not> sublist ''typeface'' p \<longrightarrow>
          rule_matches (svg_rule e) p \<and> \<not> rule_matches (font_rule e) p) \<and>
   (\<forall>d. sublist ''typeface'' d \<longrightarrow>
          rule_matches (font_rule e) (d @ ''/fonts/Icon.svg'') \<and>
          \<not> rule_matches (svg_rule e) (d @ ''/fonts/Icon.svg'')) \<and>
   rule_matches (svg_rule e) ''assets/icon.svg'' \<and>
   \<not> rule_matches (font_rule e) ''assets/icon.svg''"
proof -
  have nt: "\<not> sublist ''typeface'' ''assets/icon.svg''"
    by (simp add: sublist_code)
  have sfx: "suffix ''.svg'' (d @ ''/fonts/Icon.svg'')" for d :: string
    by (simp add: suffix_def) 
  have sub: "sublist ''typeface'' d \<Longrightarrow> sublist ''typeface'' (d @ ''/fonts/Icon.svg'')" for d
    by (auto simp: sublist_def) (metis append.assoc)
  have s2: "suffix ''.svg'' ''assets/icon.svg''"
    by (simp add: suffix_def)
  show ?thesis
    unfolding font_rule_matches svg_rule_matches using nt sfx sub s2 by blast
qed

theorem svg_disambiguation_witness:
  "suffix ''.svg'' ''/proj/node_modules/typeface-roboto/fonts/Icon.svg'' \<and>
   sublist ''typeface'' ''/proj/node_modules/typeface-roboto/fonts/Icon.svg'' \<and>
   sublist ''typeface'' ''/proj/node_modules/typeface-roboto'' \<and>
   suffix ''.svg'' ''assets/icon.svg'' \<and> \<not> sublist ''typeface'' ''assets/icon.svg'' \<and>
   rule_matches (font_rule example_env) ''/proj/node_modules/typeface-roboto/fonts/Icon.svg'' \<and>
   \<not> rule_matches (svg_rule example_env) ''/proj/node_modules/typeface-roboto/fonts/Icon.svg'' \<and>
   rule_matches (svg_rule example_env) ''assets/icon.svg'' \<and>
   \<not> rule_matches (font_rule example_env) ''assets/icon.svg''"
proof -
  have a: "suffix ''.svg'' ''/proj/node_modules/typeface-roboto/fonts/Icon.svg''"
    by (simp add: suffix_def)
  have b: "sublist ''typeface'' ''/proj/node_modules/typeface-roboto/fonts/Icon.svg''"
    by (simp add: sublist_code)
  have b': "sublist ''typeface'' ''/proj/node_modules/typeface-roboto''"
    by (simp add: sublist_code)
  have c: "suffix ''.svg'' ''assets/icon.svg''"
    by (simp add: suffix_def)
  have d: "\<not> sublist ''typeface'' ''assets/icon.svg''"
    by (simp add: sublist_code)
  from a b b' c d svg_disambiguation[of example_env] show ?thesis by blast
qed

text \<open>
  C7: for a defaults object and an overrides object, the merge succeeds and, field by
  field: the override wins whole unless both values are arrays or both are objects (the
  default being no instance of a class); two
  objects are merged by the same rule one level down; two arrays are concatenated, default
  first, nothing removed; a field the overrides do not set keeps its default. In
  particular the merged \<^verbatim>\<open>rules\<close> are as many as the default and the override rules
  together.
\<close>

theorem merge_override_wins_arrays_concatenate:
  fixes dflt over :: "(string \<times> jsval) list"
  defines "D \<equiv> JObj dflt" and "V \<equiv> JObj over"
  shows "merge D V = Inr (deepmerge D V) \<and>
     (\<forall>k. k \<in> set (Object_keys V) \<and> distinct_keys (get V k) \<and>
           \<not> (isArray (get D k) \<and> isArray (get V k)) \<and>
           \<not> ((\<exists>a. get D k = JObj a) \<and> (\<exists>b. get V k = JObj b)) \<and>
           (\<forall>c a. get D k \<noteq> JInstance c a)
           \<longrightarrow> get (deepmerge D V) k = get V k) \<and>
     (\<forall>k a b. get D k = JObj a \<and> get V k = JObj b
           \<longrightarrow> get (deepmerge D V) k = deepmerge (JObj a) (JObj b)) \<and>
     (\<forall>k xs ys. get D k = JArr xs \<and> get V k = JArr ys \<and> list_all distinct_keys (xs @ ys)
           \<longrightarrow> get (deepmerge D V) k = JArr (xs @ ys)) \<and>
     (\<forall>k. k \<notin> set (Object_keys V) \<and> distinct_keys (get D k)
           \<longrightarrow> get (deepmerge D V) k = get D k) \<and>
     (\<forall>xs ys. get D ''rules'' = JArr xs \<and>
               (get V ''rules'' = JArr ys \<or> ''rules'' \<notin> set (Object_keys V) \<and> ys = [])
           \<longrightarrow> length (elems (get (deepmerge D V) ''rules'')) = length xs + length ys)"
proof -
  have dm: "deepmerge D V = mergeObject D V"
    by (simp add: D_def V_def deepmerge.simps)
  have mD: "isMergeableObject D" by (simp add: D_def)
  have g: "get (deepmerge D V) k =
     (if k \<in> set (Object_keys V)
      then (if \<not> isMergeableObject (get V k) \<or> \<not> truthy (get D k)
            then cloneUnlessOtherwiseSpecified (get V k)
            else deepmerge (get D k) (get V k))
      else cloneUnlessOtherwiseSpecified (get D k))" for k
    unfolding dm get_mergeObject using mD get_absent[of k D] by (simp add: clone_scalar)
  have 1: "merge D V = Inr (deepmerge D V)"
    by (simp add: merge_def V_def)
  have 2: "get (deepmerge D V) k = get V k"
    if "k \<in> set (Object_keys V)" "distinct_keys (get V k)"
       "\<not> (isArray (get D k) \<and> isArray (get V k))"
       "\<not> ((\<exists>a. get D k = JObj a) \<and> (\<exists>b. get V k = JObj b))"
       "\<forall>c a. get D k \<noteq> JInstance c a" for k
  proof (cases "\<not> isMergeableObject (get V k) \<or> \<not> truthy (get D k)")
    case True
    with that(1,2) show ?thesis unfolding g by (simp add: clone_id)
  next
    case False
    with that(1) deepmerge_override_wins[OF that(2,3,4,5)] show ?thesis unfolding g by simp
  qed
  have 3: "get (deepmerge D V) k = deepmerge (JObj a) (JObj b)"
    if "get D k = JObj a" "get V k = JObj b" for k a b
  proof -
    from that(2) have "k \<in> set (Object_keys V)" using get_absent[of k V] by auto
    with that show ?thesis unfolding g by simp
  qed
  have 4: "get (deepmerge D V) k = JArr (map cloneUnlessOtherwiseSpecified (xs @ ys))"
    if "get D k = JArr xs" "get V k = JArr ys" for k xs ys
  proof -
    from that(2) have "k \<in> set (Object_keys V)" using get_absent[of k V] by auto
    with that show ?thesis unfolding g by (simp add: deepmerge_arrays)
  qed
  have c4: "get (deepmerge D V) k = JArr (xs @ ys)"
    if "get D k = JArr xs" "get V k = JArr ys" "list_all distinct_keys (xs @ ys)" for k xs ys
  proof -
    from that(3) have "map cloneUnlessOtherwiseSpecified (xs @ ys) = xs @ ys"
      by (intro map_idI) (auto simp: list_all_iff clone_id)
    with 4[OF that(1,2)] show ?thesis by simp
  qed
  have 5: "get (deepmerge D V) k = get D k"
    if "k \<notin> set (Object_keys V)" "distinct_keys (get D k)" for k
    using that unfolding g by (simp add: clone_id)
  have 6: "length (elems (get (deepmerge D V) ''rules'')) = length xs + length ys"
    if "get D ''rules'' = JArr xs"
       "get V ''rules'' = JArr ys \<or> ''rules'' \<notin> set (Object_keys V) \<and> ys = []" for xs ys
  proof (cases "get V ''rules'' = JArr ys")
    case True
    from 4[OF that(1) True] show ?thesis by simp
  next
    case False
    with that(2) have "''rules'' \<notin> set (Object_keys V)" "ys = []" by auto
    with that(1) show ?thesis unfolding g by (simp add: clone_array)
  qed
  from 1 2 3 c4 5 6 show ?thesis by blast
qed

theorem merge_override_wins_arrays_concatenate_witness:
  "get (deepmerge
          (JObj [(''mode'', JStr ''development''), (''rules'', JArr [JNum 1]),
                 (''html'', JObj [(''template'', JNull), (''title'', JStr ''OS.js'')])])
          (JObj [(''mode'', JStr ''production''), (''rules'', JArr [JNum 1, JNum 2]),
                 (''html'', JObj [(''template'', JStr ''t.html'')])])) ''mode'' = JStr ''production'' \<and>
   get (deepmerge
          (JObj [(''mode'', JStr ''development''), (''rules'', JArr [JNum 1]),
                 (''html'', JObj [(''template'', JNull), (''title'', JStr ''OS.js'')])])
          (JObj [(''mode'', JStr ''production''), (''rules'', JArr [JNum 1, JNum 2]),
                 (''html'', JObj [(''template'', JStr ''t.html'')])])) ''rules''
     = JArr [JNum 1, JNum 1, JNum 2] \<and>
   length (elems (get (deepmerge
          (JObj [(''mode'', JStr ''development''), (''rules'', JArr [JNum 1]),
                 (''html'', JObj [(''template'', JNull), (''title'', JStr ''OS.js'')])])
          (JObj [(''mode'', JStr ''production''), (''rules'', JArr [JNum 1, JNum 2]),
                 (''html'', JObj [(''template'', JStr ''t.html'')])])) ''rules'')) = 1 + 2 \<and>
   get (deepmerge
          (JObj [(''mode'', JStr ''development''), (''rules'', JArr [JNum 1]),
                 (''html'', JObj [(''template'', JNull), (''title'', JStr ''OS.js'')])])
          (JObj [(''mode'', JStr ''production''), (''rules'', JArr [JNum 1, JNum 2]),
                 (''html'', JObj [(''template'', JStr ''t.html'')])])) ''html''
     = JObj [(''template'', JStr ''t.html''), (''title'', JStr ''OS.js'')]"
proof -
  let ?d = "[(''mode'', JStr ''development''), (''rules'', JArr [JNum 1]),
             (''html'', JObj [(''template'', JNull), (''title'', JStr ''OS.js'')])]"
  let ?s = "[(''mode'', JStr ''production''), (''rules'', JArr [JNum 1, JNum 2]),
             (''html'', JObj [(''template'', JStr ''t.html'')])]"
  note T = merge_override_wins_arrays_concatenate[of ?d ?s]
  from T have sc: "\<forall>k. k \<in> set (Object_keys (JObj ?s)) \<and> distinct_keys (get (JObj ?s) k) \<and>
           \<not> (isArray (get (JObj ?d) k) \<and> isArray (get (JObj ?s) k)) \<and>
           \<not> ((\<exists>a. get (JObj ?d) k = JObj a) \<and> (\<exists>b. get (JObj ?s) k = JObj b)) \<and>
           (\<forall>c a. get (JObj ?d) k \<noteq> JInstance c a)
           \<longrightarrow> get (deepmerge (JObj ?d) (JObj ?s)) k = get (JObj ?s) k"
    by blast
  from T have ob: "\<forall>k a b. get (JObj ?d) k = JObj a \<and> get (JObj ?s) k = JObj b
           \<longrightarrow> get (deepmerge (JObj ?d) (JObj ?s)) k = deepmerge (JObj a) (JObj b)"
    by blast
  from T have ar: "\<forall>k xs ys. get (JObj ?d) k = JArr xs \<and> get (JObj ?s) k = JArr ys \<and>
           list_all distinct_keys (xs @ ys)
           \<longrightarrow> get (deepmerge (JObj ?d) (JObj ?s)) k = JArr (xs @ ys)"
    by blast
  from T have ln: "\<forall>xs ys. get (JObj ?d) ''rules'' = JArr xs \<and>
               (get (JObj ?s) ''rules'' = JArr ys \<or> ''rules'' \<notin> set (Object_keys (JObj ?s)) \<and> ys = [])
           \<longrightarrow> length (elems (get (deepmerge (JObj ?d) (JObj ?s)) ''rules'')) = length xs + length ys"
    by blast
  have 1: "get (deepmerge (JObj ?d) (JObj ?s)) ''mode'' = JStr ''production''"
    using sc[rule_format, of "''mode''"] by simp
  have 2: "get (deepmerge (JObj ?d) (JObj ?s)) ''rules'' = JArr [JNum 1, JNum 1, JNum 2]"
    using ar[rule_format, of "''rules''" "[JNum 1]" "[JNum 1, JNum 2]"] by simp
  have 3: "length (elems (get (deepmerge (JObj ?d) (JObj ?s)) ''rules'')) = 1 + 2"
    using ln[rule_format, of "[JNum 1]" "[JNum 1, JNum 2]"] by simp
  have "get (deepmerge (JObj ?d) (JObj ?s)) ''html''
      = deepmerge (JObj [(''template'', JNull), (''title'', JStr ''OS.js'')])
                  (JObj [(''template'', JStr ''t.html'')])"
    using ob[rule_format, of "''html''"] by simp
  also have "\<dots> = JObj [(''template'', JStr ''t.html''), (''title'', JStr ''OS.js'')]"
    by code_simp
  finally have 4: "get (deepmerge (JObj ?d) (JObj ?s)) ''html''
      = JObj [(''template'', JStr ''t.html''), (''title'', JStr ''OS.js'')]" .
  from 1 2 3 4 show ?thesis by blast
qed

text \<open>
  C8: when the base directory cannot be resolved, \<^verbatim>\<open>createWebpack\<close> ends with the error
  of \<^verbatim>\<open>fs.realpathSync\<close> and returns no configuration, whatever the overrides are.
\<close>

theorem createWebpack_unresolvable:
  assumes "realpathSync e dir = Inl err"
  shows "createWebpack e dir options = Inl err"
  using assms by (simp add: createWebpack_def)

theorem createWebpack_unresolvable_witness:
  "realpathSync example_env ''/missing'' = Inl (FsError ''ENOENT'') \<and>
   createWebpack example_env ''/missing'' (JObj []) = Inl (FsError ''ENOENT'')"
proof -
  have d: "realpathSync example_env ''/missing'' = Inl (FsError ''ENOENT'')"
    by (simp add: example_env_def)
  from d createWebpack_unresolvable[OF d] show ?thesis by blast
qed

text \<open>
  C9 holds of letters, digits and the underscore, but the class \<^verbatim>\<open>[^A-z0-9_]\<close> of the
  filter spans the codes 65 to 122, and so also keeps the six characters between \<^verbatim>\<open>Z\<close>
  and \<^verbatim>\<open>a\<close>, among them the brackets and the caret: the output below is not made of
  letters, digits and underscores only.
\<close>

theorem filterInput_keeps_punctuation:
  "filterInput ''My[App]^2'' = ''My[App]^2''"
  by code_simp

text \<open>
  C10: \<^verbatim>\<open>createWebpack\<close> writes to no object of its caller. Let \<open>h\<close> be the store at
  the call, with the overrides and all that they refer to in it. Whatever the overrides
  are, whatever depth of calls the merge may use, and whether the call returns a
  configuration or throws, the store after the call begins with \<open>h\<close>: every array and
  object that existed before the call, the overrides and their \<^verbatim>\<open>plugins\<close> array among
  them, has the content it had. The merge writes to cells that it allocates, and lines 76
  and 80 write to the merged copy. The condition is on the code that is not the
  module's: the plugin constructors, \<^verbatim>\<open>ExtractTextPlugin.extract\<close> and a function that
  the caller has put into the overrides as \<^verbatim>\<open>plugins.push\<close> leave the cells of \<open>h\<close>
  as they are.
\<close>

theorem createWebpack_leaves_overrides:
  assumes ext: "\<And>hk v. prefix h hk \<Longrightarrow>
                  prefix h (fst (h_HtmlWebpackPlugin x hk v)) \<and>
                  prefix h (fst (h_ExtractTextPlugin x hk v)) \<and>
                  prefix h (fst (h_CopyWebpackPlugin x hk v)) \<and>
                  prefix h (fst (h_extract x hk v))"
      and call: "\<And>hk f this a. prefix h hk \<Longrightarrow> prefix h (fst (h_call x f hk this a))"
  shows "prefix h (fst (h_createWebpack depth e x h dir options))"
proof -
  have e0: "prefix h (fst (h_HtmlWebpackPlugin x hk v))" if "prefix h hk" for hk v
    using ext[OF that] by blast
  have e1: "prefix h (fst (h_ExtractTextPlugin x hk v))" if "prefix h hk" for hk v
    using ext[OF that] by blast
  have e2: "prefix h (fst (h_CopyWebpackPlugin x hk v))" if "prefix h hk" for hk v
    using ext[OF that] by blast
  have e3: "prefix h (fst (h_extract x hk v))" if "prefix h hk" for hk v
    using ext[OF that] by blast
  have ret: "prefix h (fst (h_returned e x hk dir v))" if "prefix h hk" for hk v
    using that e1 e2 e3 by (rule h_returned_prefix)
  obtain h1 ov where a1: "(if options = HUndefined then alloc h (HObj []) else (h, options)) = (h1, ov)"
    by (cases "if options = HUndefined then alloc h (HObj []) else (h, options)")
  then have p1: "prefix h h1" by (auto simp: alloc_eq split: if_splits)
  show ?thesis
  proof (cases "realpathSync e dir")
    case (Inl err)
    with a1 p1 show ?thesis by (simp add: h_createWebpack_def)
  next
    case (Inr realDir)
    obtain h2 dflt where a2: "build h1 (lit_of (defaults e dir realDir)) = (h2, dflt)"
      by (cases "build h1 (lit_of (defaults e dir realDir))")
    with step_build[OF p1, of "lit_of (defaults e dir realDir)"] have p2: "prefix h h2" by simp
    obtain h3 r where a3: "h_deepmerge depth h2 dflt ov = (h3, r)"
      by (cases "h_deepmerge depth h2 dflt ov")
    from deepmerge_fresh[of h2 depth] a3 have fr: "fresh_result h2 (h3, r)" by metis
    then have "prefix h2 h3" by (simp add: fresh_result_def)
    with p2 have p3: "prefix h h3" by (rule prefix_order.trans)
    from p2 have le: "length h \<le> length h2" by (rule prefix_length_le)
    show ?thesis
    proof (cases r)
      case (Inl err)
      with a1 Inr a2 a3 p3 show ?thesis by (simp add: h_createWebpack_def)
    next
      case merged: (Inr merged)
      with fr have "newer (length h2) merged" "props_newer (length h2) h3 merged"
        by (simp_all add: fresh_result_def)
      with le have n: "newer (length h) merged" and pn: "props_newer (length h) h3 merged"
        by (auto intro: newer_mono props_newer_mono)
      define h4 where "h4 = (if \<not> h_truthy (h_get h3 merged ''sourceMap'')
                             then h_put h3 merged ''devtool'' (HBool False) else h3)"
      have p4: "prefix h h4"
        unfolding h4_def using p3 n by (simp add: h_put_prefix)
      have pn4: "props_newer (length h) h4 merged"
        unfolding h4_def using pn by (simp add: props_newer_put newer_def)
      define tail where "tail = (\<lambda>r :: heap \<times> (error + unit).
          case r of (h, Inl err) \<Rightarrow> (h, Inl err) | (h, Inr u) \<Rightarrow> h_returned e x h dir merged)"
      have t: "prefix h (fst (tail r))" if "prefix h (fst r)" for r
        unfolding tail_def using that
        by (intro step_prod step_sum step_pair ret | assumption)+
      have np: "newer (length h) (h_get h4 merged ''plugins'')"
        using pn4 by (rule get_newer)
      have push: "prefix h (fst (case h_HtmlWebpackPlugin x h4 v of
                                   (h, plugin) \<Rightarrow> h_push x h (h_get h4 merged ''plugins'') plugin))" for v
        by (intro step_prod e0 p4 h_push_prefix np call | assumption)+
      have eq: "h_createWebpack depth e x h dir options =
        (let html = h_get h4 merged ''html'' in
         if html = HNull \<or> html = HUndefined then (h4, Inl TypeError)
         else
           (let template = h_get h4 html ''template'' in
            tail (if h_truthy template
                  then (let options_plugins = h_get h4 merged ''plugins'' in
                        if options_plugins = HNull \<or> options_plugins = HUndefined then (h4, Inl TypeError)
                        else (case h_HtmlWebpackPlugin x h4 template of
                                (h, plugin) \<Rightarrow> h_push x h options_plugins plugin))
                  else (h4, Inr ()))))"
        by (simp only: h_createWebpack_def a1 Inr a2 a3 merged prod.case sum.case Let_def h4_def tail_def)
      show ?thesis
        unfolding eq Let_def
        using p4 push by (auto intro!: t)
    qed
  qed
qed

theorem createWebpack_leaves_overrides_witness:
  "prefix example_heap
     (fst (h_createWebpack 12 example_env example_externals example_heap ''/proj'' (HRef 3))) \<and>
   (case h_createWebpack 12 example_env example_externals example_heap ''/proj'' (HRef 3) of
      (h', r) \<Rightarrow> \<not> isl r \<and>
                 h_elems h' (h_get h' (HRef 3) ''plugins'') = [HRef 0] \<and>
                 length (h_elems h' (h_get h' (projr r) ''plugins'')) = 4)"
proof -
  have ext: "prefix example_heap (fst (h_HtmlWebpackPlugin example_externals hk v)) \<and>
             prefix example_heap (fst (h_ExtractTextPlugin example_externals hk v)) \<and>
             prefix example_heap (fst (h_CopyWebpackPlugin example_externals hk v)) \<and>
             prefix example_heap (fst (h_extract example_externals hk v))"
    if "prefix example_heap hk" for hk v
    using that by (simp add: example_externals_def alloc_def)
  have call: "prefix example_heap (fst (h_call example_externals f hk this a))"
    if "prefix example_heap hk" for hk f this a
    using that by (simp add: example_externals_def)
  have 1: "prefix example_heap
     (fst (h_createWebpack 12 example_env example_externals example_heap ''/proj'' (HRef 3)))"
    using ext call by (rule createWebpack_leaves_overrides)
  have 2: "(case h_createWebpack 12 example_env example_externals example_heap ''/proj'' (HRef 3) of
      (h', r) \<Rightarrow> \<not> isl r \<and>
                 h_elems h' (h_get h' (HRef 3) ''plugins'') = [HRef 0] \<and>
                 length (h_elems h' (h_get h' (projr r) ''plugins'')) = 4)"
    by code_simp
  from 1 2 show ?thesis by (intro conjI)
qed

end
